theory Spec2Isabelle
  imports Complex_Main
begin

section \<open>JavaScript values used by the Twitter client\<close>

text \<open>
  A JavaScript string is modelled as a \<^typ>\<open>string\<close>, one \<^typ>\<open>char\<close> per code unit
  (code units up to 255).  \<open>Date.now()\<close> and the other integral numbers are \<^typ>\<open>int\<close>,
  \<open>Math.random()\<close> and the probabilities are \<^typ>\<open>real\<close>.  A call into the runtime,
  the cache or the network either throws or returns.
\<close>

datatype 'a outcome = Throws | Returns 'a

text \<open>Truthiness of an optional string: \<open>undefined\<close>, \<open>null\<close> and \<open>""\<close> are falsy.\<close>

fun truthy :: "string option \<Rightarrow> bool" where
  "truthy None = False"
| "truthy (Some s) = (s \<noteq> [])"

text \<open>The white space and line terminators that \<open>String.prototype.trim\<close> removes (below 256).\<close>

definition isWhiteSpace :: "char \<Rightarrow> bool" where
  "isWhiteSpace c = (c \<in> set [CHR 0x09, CHR 0x0A, CHR 0x0B, CHR 0x0C, CHR 0x0D, CHR '' '', CHR 0xA0])"

definition trim :: "string \<Rightarrow> string" where
  "trim s = rev (dropWhile isWhiteSpace (rev (dropWhile isWhiteSpace s)))"

text \<open>\<open>text.lastIndexOf(c, pos)\<close> for a one-character search string: the search starts at
  \<open>pos\<close> clamped to \<open>[0, length - 1]\<close> and walks down; \<open>-1\<close> when nothing is found.\<close>

fun findDown :: "string \<Rightarrow> char \<Rightarrow> nat \<Rightarrow> int" where
  "findDown s c 0 = (if s ! 0 = c then 0 else - 1)"
| "findDown s c (Suc k) = (if s ! Suc k = c then int (Suc k) else findDown s c k)"

definition lastIndexOf :: "string \<Rightarrow> char \<Rightarrow> int \<Rightarrow> int" where
  "lastIndexOf s c pos =
     (let start = min (max pos 0) (int (length s) - 1)
      in if start < 0 then - 1 else findDown s c (nat start))"

text \<open>\<open>text.slice(0, end)\<close>: a negative \<open>end\<close> counts from the end of the string.\<close>

definition slice0 :: "string \<Rightarrow> int \<Rightarrow> string" where
  "slice0 s e =
     (let len = int (length s);
          to = (if e < 0 then max (len + e) 0 else min e len)
      in take (nat to) s)"

section \<open>Truncation of a post (both post clients)\<close>

definition MAX_TWEET_LENGTH :: int where
  "MAX_TWEET_LENGTH = 280"

definition truncateToCompleteSentence :: "string \<Rightarrow> string" where
  "truncateToCompleteSentence text0 =
     (if int (length text0) \<le> MAX_TWEET_LENGTH then text0
      else
        let truncatedAtPeriod = slice0 text0 (lastIndexOf text0 (CHR ''.'') MAX_TWEET_LENGTH + 1)
        in if length (trim truncatedAtPeriod) > 0 then trim truncatedAtPeriod
           else
             let truncatedAtSpace = slice0 text0 (lastIndexOf text0 (CHR '' '') MAX_TWEET_LENGTH)
             in if length (trim truncatedAtSpace) > 0 then trim truncatedAtSpace @ ''...''
                else trim (slice0 text0 (MAX_TWEET_LENGTH - 3)) @ ''...'')"

section \<open>post.ts: the post client with hard-wired special interactions\<close>

record SpecialInteraction =
  handle :: string
  topics :: "string list"
  templates :: "string list"
  probability :: real

definition SPECIAL_INTERACTIONS :: "(string \<times> SpecialInteraction) list" where
  "SPECIAL_INTERACTIONS =
    [(''tate'',
      \<lparr>handle = ''@Cobratate'',
       topics = [''sold 2M Willy'', ''paper hands'', ''missing out'', ''future regret''],
       templates =
        [''Imagine selling your community-gifted 2M Willy... some people just don't see the vision'',
         ''When Willy hits a billion, wonder how that 2M sale will feel'',
         ''Paper hands never make generational wealth... just saying'',
         ''Some influencers talk diamond hands but fold faster than a lawn chair''],
       probability = 15 / 100\<rparr>),
     (''hailey'',
      \<lparr>handle = ''@HaileyWelchX'',
       topics = [''partnership'', ''Willy tuah Billy'', ''moon mission'', ''collaboration''],
       templates =
        [''Let's take this Willy tuah Billy together'',
         ''Two visionaries, one mission - Willy tuah Billy'',
         ''When are we partnering to make history?'',
         ''Your energy + my vision = Willy tuah Billy''],
       probability = 15 / 100\<rparr>),
     (''dolos'',
      \<lparr>handle = ''@dolos_diary'',
       topics = [''small willy'', ''tiny holdings'', ''weak position''],
       templates =
        [''Heard someone's holding a microscopic bag... must be rough'',
         ''Some people compensate for their tiny Willy with big talk'',
         ''Not everyone can handle a big Willy, clearly'',
         ''Size matters in this game, and someone's coming up short'',
         ''While others play with their mini Willies, we're building generational wealth''],
       probability = 15 / 100\<rparr>)]"

text \<open>The only field of the class that \<open>shouldGenerateSpecialInteraction\<close> reads or writes.\<close>

record PostClientState =
  lastInteractionType :: "string option"

text \<open>The \<open>for ... of Object.entries(SPECIAL_INTERACTIONS)\<close> loop with its running sum.\<close>

fun pickInteraction :: "real \<Rightarrow> real \<Rightarrow> (string \<times> SpecialInteraction) list \<Rightarrow> string option" where
  "pickInteraction random cumulativeProbability [] = None"
| "pickInteraction random cumulativeProbability ((type, interaction) # rest) =
     (let cumulativeProbability' = cumulativeProbability + probability interaction
      in if random < cumulativeProbability' then Some type
         else pickInteraction random cumulativeProbability' rest)"

text \<open>\<open>random\<close> is the value \<open>Math.random()\<close> returns when the call reaches it.\<close>

definition shouldGenerateSpecialInteraction ::
  "real \<Rightarrow> PostClientState \<Rightarrow> string option \<times> PostClientState" where
  "shouldGenerateSpecialInteraction random c =
     (if truthy (lastInteractionType c) then (None, c\<lparr>lastInteractionType := None\<rparr>)
      else case pickInteraction random 0 SPECIAL_INTERACTIONS of
             Some type \<Rightarrow> (Some type, c\<lparr>lastInteractionType := Some type\<rparr>)
           | None \<Rightarrow> (None, c))"

section \<open>post.ts: the interaction client\<close>

subsection \<open>Posts, limits and the tracked state\<close>

text \<open>The fields of a \<open>Tweet\<close> that the code reads (\<open>id\<close> and \<open>text\<close> carry a suffix here).
  An absent \<open>inReplyToStatusId\<close> is \<open>None\<close>.\<close>

record Tweet =
  id_tw :: string
  userId :: string
  conversationId :: string
  inReplyToStatusId :: "string option"
  text_tw :: string
  permanentUrl :: string

record InteractionLimits =
  maxRepliesPerThread :: int
  maxRepliesPerUser :: int
  minTimeBetweenReplies :: int
  checkIntervalMinutes :: int
  replyProbability :: real

text \<open>\<open>parseInt(setting) || d\<close> and \<open>parseFloat(setting) || d\<close>: the parse result is
  \<open>None\<close> for \<open>NaN\<close>; \<open>NaN\<close> and \<open>0\<close> are falsy and give the default.\<close>

definition orDefault :: "'a::zero option \<Rightarrow> 'a \<Rightarrow> 'a" where
  "orDefault parsed d = (case parsed of None \<Rightarrow> d | Some n \<Rightarrow> if n = 0 then d else n)"

text \<open>What \<open>parseInt\<close> and \<open>parseFloat\<close> make of the five runtime settings.\<close>

record LimitSettings =
  MAX_REPLIES_PER_THREAD :: "int option"
  MAX_REPLIES_PER_USER :: "int option"
  MIN_TIME_BETWEEN_REPLIES :: "int option"
  CHECK_INTERVAL_MINUTES :: "int option"
  REPLY_PROBABILITY :: "real option"

definition initLimits :: "LimitSettings \<Rightarrow> InteractionLimits" where
  "initLimits settings =
     \<lparr>maxRepliesPerThread = orDefault (MAX_REPLIES_PER_THREAD settings) 2,
      maxRepliesPerUser = orDefault (MAX_REPLIES_PER_USER settings) 5,
      minTimeBetweenReplies = orDefault (MIN_TIME_BETWEEN_REPLIES settings) 300000,
      checkIntervalMinutes = orDefault (CHECK_INTERVAL_MINUTES settings) 3,
      replyProbability = orDefault (REPLY_PROBABILITY settings) (5 / 10)\<rparr>"

text \<open>The fields of \<open>TwitterInteractionClient\<close>, with the two fields of its \<open>ClientBase\<close>
  that the polling reads: \<open>client.lastCheckedTweetId\<close> (a bigint or null) and
  \<open>client.profile.id\<close>.\<close>

record InteractionClient =
  recentReplies :: "string \<rightharpoonup> nat"
  threadReplies :: "string \<rightharpoonup> nat"
  lastReplyTime :: "string \<rightharpoonup> int"
  limits :: InteractionLimits
  lastCheckedTweetId :: "int option"
  profileId :: string

definition newInteractionClient :: "LimitSettings \<Rightarrow> string \<Rightarrow> int option \<Rightarrow> InteractionClient" where
  "newInteractionClient settings profile checkpoint =
     \<lparr>recentReplies = Map.empty, threadReplies = Map.empty, lastReplyTime = Map.empty,
      limits = initLimits settings, lastCheckedTweetId = checkpoint, profileId = profile\<rparr>"

text \<open>\<open>map.get(key) || 0\<close>.\<close>

definition getOr0 :: "('k \<rightharpoonup> 'v::zero) \<Rightarrow> 'k \<Rightarrow> 'v" where
  "getOr0 m k = (case m k of None \<Rightarrow> 0 | Some v \<Rightarrow> v)"

definition cleanupTrackingMaps :: "int \<Rightarrow> InteractionClient \<Rightarrow> InteractionClient" where
  "cleanupTrackingMaps now c =
     (let oneDayAgo = now - 24 * 60 * 60 * 1000;
          stale = (\<lambda>u. case lastReplyTime c u of None \<Rightarrow> False | Some timestamp \<Rightarrow> timestamp < oneDayAgo)
      in c\<lparr>lastReplyTime := (\<lambda>u. if stale u then None else lastReplyTime c u),
            recentReplies := (\<lambda>u. if stale u then None else recentReplies c u),
            threadReplies := Map.empty\<rparr>)"

text \<open>\<open>now\<close> is what \<open>Date.now()\<close> returns inside the call.\<close>

definition canReplyToUser :: "int \<Rightarrow> InteractionClient \<Rightarrow> string \<Rightarrow> bool" where
  "canReplyToUser now c user =
     (let replyCount = getOr0 (recentReplies c) user;
          lastReply = getOr0 (lastReplyTime c) user;
          timeSinceLastReply = now - lastReply
      in int replyCount < maxRepliesPerUser (limits c) \<and>
         timeSinceLastReply \<ge> minTimeBetweenReplies (limits c))"

definition canReplyInThread :: "InteractionClient \<Rightarrow> string \<Rightarrow> bool" where
  "canReplyInThread c conversation =
     (let threadReplyCount = getOr0 (threadReplies c) conversation
      in int threadReplyCount < maxRepliesPerThread (limits c))"

definition updateInteractionTracking ::
  "int \<Rightarrow> string \<Rightarrow> string \<Rightarrow> InteractionClient \<Rightarrow> InteractionClient" where
  "updateInteractionTracking now user conversation c =
     (let currentReplies = getOr0 (recentReplies c) user;
          c1 = c\<lparr>recentReplies := (recentReplies c)(user \<mapsto> currentReplies + 1)\<rparr>;
          currentThreadReplies = getOr0 (threadReplies c1) conversation;
          c2 = c1\<lparr>threadReplies := (threadReplies c1)(conversation \<mapsto> currentThreadReplies + 1)\<rparr>
      in c2\<lparr>lastReplyTime := (lastReplyTime c2)(user \<mapsto> now)\<rparr>)"

subsection \<open>Handling one candidate\<close>

text \<open>\<open>BigInt(tweet.id)\<close> on a string of decimal digits, as status ids are; \<open>None\<close> is the
  SyntaxError (signs, blanks and radix prefixes are not modelled and count as errors).\<close>

fun parseDigits :: "int \<Rightarrow> string \<Rightarrow> int option" where
  "parseDigits acc [] = Some acc"
| "parseDigits acc (c # cs) =
     (let d = (of_char c :: nat)
      in if 48 \<le> d \<and> d \<le> 57 then parseDigits (10 * acc + (int d - 48)) cs else None)"

definition BigInt :: "string \<Rightarrow> int option" where
  "BigInt s = parseDigits 0 s"

text \<open>What is observable of a run: the log lines that tell the branches apart and the calls
  that leave the process.  \<open>SentReply\<close> is a call of \<open>sendTweet\<close> that has returned,
  \<open>HandleReturned\<close> marks the return of \<open>handleTweet\<close> with the \<open>action\<close> of its result,
  \<open>CachedCheckpoint\<close> is the call of \<open>cacheLatestCheckedTweetId\<close> with the checkpoint it
  finds.\<close>

datatype event =
    Checking
  | SkippedRateLimit Tweet
  | SkippedProbability Tweet
  | NewTweetFound Tweet
  | SentReply Tweet string
  | HandleReturned Tweet "string option"
  | CachedCheckpoint "int option"
  | Finished
  | ErrorLogged

text \<open>What the collaborators of \<open>handleTweet\<close> answer for one post: \<open>decisionThrows\<close> when
  an awaited call up to \<open>generateShouldRespond\<close> rejects, \<open>responseThrows\<close> when
  \<open>generateMessageResponse\<close> does, \<open>sendThrows\<close> when \<open>sendTweet\<close> does and
  \<open>afterSendThrows\<close> when a later statement of the \<open>try\<close> block does.\<close>

record HandleEnv =
  decisionThrows :: bool
  shouldRespond :: "string option"
  responseThrows :: bool
  responseText :: string
  sendThrows :: bool
  afterSendThrows :: bool

record HandleResult =
  text_res :: string
  action :: "string option"

definition handleTweet ::
  "string \<Rightarrow> HandleEnv \<Rightarrow> Tweet \<Rightarrow> string \<Rightarrow> event list \<times> HandleResult outcome" where
  "handleTweet profile env tweet messageText =
     (if userId tweet = profile then
        ([], Returns \<lparr>text_res = [], action = Some ''IGNORE''\<rparr>)
      else if messageText = [] then
        ([], Returns \<lparr>text_res = [], action = Some ''IGNORE''\<rparr>)
      else if decisionThrows env then ([], Throws)
      else if shouldRespond env \<noteq> Some ''RESPOND'' then
        ([], Returns \<lparr>text_res = ''Response Decision:'', action = shouldRespond env\<rparr>)
      else if responseThrows env then ([], Throws)
      else if responseText env \<noteq> [] then
        (if sendThrows env then
           ([], Returns \<lparr>text_res = [], action = Some ''ERROR''\<rparr>)
         else if afterSendThrows env then
           ([SentReply tweet (responseText env)],
            Returns \<lparr>text_res = [], action = Some ''ERROR''\<rparr>)
         else
           ([SentReply tweet (responseText env)],
            Returns \<lparr>text_res = responseText env, action = Some ''RESPOND''\<rparr>))
      else ([], Returns \<lparr>text_res = [], action = Some ''IGNORE''\<rparr>))"

text \<open>What the clock, the random generator and the collaborators answer while one candidate
  of the batch is looked at.\<close>

record TweetEnv =
  nowCanReply :: int
  randomReply :: real
  connectionThrows :: bool
  threadThrows :: bool
  handleEnv :: HandleEnv
  nowTracking :: int

text \<open>The guard \<open>!lastCheckedTweetId || BigInt(tweet.id) > lastCheckedTweetId\<close>; the bigint
  \<open>0n\<close> is falsy, and \<open>BigInt\<close> is only called when the checkpoint is truthy.\<close>

definition isNewTweet :: "InteractionClient \<Rightarrow> Tweet \<Rightarrow> bool outcome" where
  "isNewTweet c tweet =
     (case lastCheckedTweetId c of
        None \<Rightarrow> Returns True
      | Some l \<Rightarrow>
          if l = 0 then Returns True
          else (case BigInt (id_tw tweet) of
                  None \<Rightarrow> Throws
                | Some n \<Rightarrow> Returns (n > l)))"

text \<open>The body of the \<open>for\<close> loop.  The first component tells whether an exception left the
  body; the state is returned in both cases, since what was assigned stays assigned.\<close>

definition processCandidate ::
  "Tweet \<Rightarrow> TweetEnv \<Rightarrow> InteractionClient \<Rightarrow> bool \<times> InteractionClient \<times> event list" where
  "processCandidate tweet env c =
     (case isNewTweet c tweet of
        Throws \<Rightarrow> (True, c, [])
      | Returns False \<Rightarrow> (False, c, [])
      | Returns True \<Rightarrow>
          if \<not> canReplyToUser (nowCanReply env) c (userId tweet) \<or>
             \<not> canReplyInThread c (conversationId tweet)
          then (False, c, [SkippedRateLimit tweet])
          else if randomReply env > replyProbability (limits c)
          then (False, c, [SkippedProbability tweet])
          else if connectionThrows env then (True, c, [NewTweetFound tweet])
          else if threadThrows env then (True, c, [NewTweetFound tweet])
          else
            (case handleTweet (profileId c) (handleEnv env) tweet (text_tw tweet) of
               (evs, Throws) \<Rightarrow> (True, c, NewTweetFound tweet # evs)
             | (evs, Returns result) \<Rightarrow>
                 (let c1 = (if action result = Some ''RESPOND''
                            then updateInteractionTracking (nowTracking env) (userId tweet)
                                   (conversationId tweet) c
                            else c);
                      evs1 = NewTweetFound tweet # evs @ [HandleReturned tweet (action result)]
                  in (case BigInt (id_tw tweet) of
                        None \<Rightarrow> (True, c1, evs1)
                      | Some n \<Rightarrow> (False, c1\<lparr>lastCheckedTweetId := Some n\<rparr>, evs1)))))"

fun forCandidates ::
  "(Tweet \<times> TweetEnv) list \<Rightarrow> InteractionClient \<Rightarrow> bool \<times> InteractionClient \<times> event list" where
  "forCandidates [] c = (False, c, [])"
| "forCandidates ((tweet, env) # rest) c =
     (case processCandidate tweet env c of
        (True, c1, evs) \<Rightarrow> (True, c1, evs)
      | (False, c1, evs) \<Rightarrow>
          (case forCandidates rest c1 of (threw, c2, evs2) \<Rightarrow> (threw, c2, evs @ evs2)))"

subsection \<open>One polling batch and the polling loop\<close>

text \<open>\<open>searchResult\<close> is what \<open>fetchSearchTweets\<close> answers: it throws, or it returns the
  posts, given here in the order \<open>[...new Set(tweets)].sort(...)\<close> leaves them in, each with
  what the environment answers while it is handled.  \<open>cacheCheckpointThrows\<close> tells whether
  \<open>cacheLatestCheckedTweetId\<close> rejects.\<close>

record BatchEnv =
  searchResult :: "(Tweet \<times> TweetEnv) list outcome"
  cacheCheckpointThrows :: bool

definition handleTwitterInteractions ::
  "BatchEnv \<Rightarrow> InteractionClient \<Rightarrow> InteractionClient \<times> event list" where
  "handleTwitterInteractions env c =
     (case searchResult env of
        Throws \<Rightarrow> (c, [Checking, ErrorLogged])
      | Returns tweetCandidates \<Rightarrow>
          let uniqueTweetCandidates =
                filter (\<lambda>(tweet, e). userId tweet \<noteq> profileId c) tweetCandidates
          in (case forCandidates uniqueTweetCandidates c of
                (True, c1, evs) \<Rightarrow> (c1, Checking # evs @ [ErrorLogged])
              | (False, c1, evs) \<Rightarrow>
                  if cacheCheckpointThrows env
                  then (c1, Checking # evs @ [ErrorLogged])
                  else (c1, Checking # evs @ [CachedCheckpoint (lastCheckedTweetId c1), Finished])))"

text \<open>\<open>start\<close>: the loop calls \<open>handleTwitterInteractions\<close> without awaiting it and sets the
  next timer; one element of the list is one firing of the timer.\<close>

fun handleTwitterInteractionsLoop ::
  "BatchEnv list \<Rightarrow> InteractionClient \<Rightarrow> InteractionClient \<times> event list" where
  "handleTwitterInteractionsLoop [] c = (c, [])"
| "handleTwitterInteractionsLoop (env # later) c =
     (case handleTwitterInteractions env c of
        (c1, evs) \<Rightarrow>
          (case handleTwitterInteractionsLoop later c1 of (c2, evs2) \<Rightarrow> (c2, evs @ evs2)))"

subsection \<open>Reconstruction of the reply thread\<close>

text \<open>The collaborators of \<open>processThread\<close>, asked at a given depth of the recursion:
  \<open>memoryThrows\<close> tells whether the block that stores the post in the message manager
  throws, \<open>getTweet\<close> is the answer of \<open>twitterClient.getTweet\<close> (it throws, finds nothing,
  or returns a post).\<close>

record ThreadWorld =
  memoryThrows :: "int \<Rightarrow> Tweet \<Rightarrow> bool"
  getTweet :: "int \<Rightarrow> string \<Rightarrow> Tweet option outcome"

text \<open>The two captured variables, and the number of calls of \<open>processThread\<close> so far.\<close>

record ThreadState =
  thread :: "Tweet list"
  visited :: "string set"
  visits :: nat

function processThread ::
  "ThreadWorld \<Rightarrow> int \<Rightarrow> Tweet \<Rightarrow> int \<Rightarrow> ThreadState \<Rightarrow> bool \<times> ThreadState" where
  "processThread w maxReplies currentTweet depth st0 =
     (let st = st0\<lparr>visits := visits st0 + 1\<rparr>
      in if depth \<ge> maxReplies then (False, st)
         else if memoryThrows w depth currentTweet then (True, st)
         else if id_tw currentTweet \<in> visited st then (False, st)
         else
           let st1 = st\<lparr>visited := insert (id_tw currentTweet) (visited st),
                        thread := currentTweet # thread st\<rparr>
           in (case inReplyToStatusId currentTweet of
                 None \<Rightarrow> (False, st1)
               | Some parentId \<Rightarrow>
                   if parentId = [] then (False, st1)
                   else
                     (case getTweet w depth parentId of
                        Throws \<Rightarrow> (False, st1)
                      | Returns None \<Rightarrow> (False, st1)
                      | Returns (Some parentTweet) \<Rightarrow>
                          (False, snd (processThread w maxReplies parentTweet (depth + 1) st1)))))"
  by pat_completeness auto
termination
  by (relation "measure (\<lambda>(w, maxReplies, currentTweet, depth, st). nat (maxReplies - depth))") auto

declare processThread.simps [simp del]

text \<open>The method: the thread when the promise resolves, \<open>None\<close> when it rejects, and the
  number of calls of \<open>processThread\<close> it took.\<close>

definition buildConversationThread ::
  "ThreadWorld \<Rightarrow> Tweet \<Rightarrow> int \<Rightarrow> Tweet list option \<times> nat" where
  "buildConversationThread w tweet maxReplies =
     (case processThread w maxReplies tweet 0 \<lparr>thread = [], visited = {}, visits = 0\<rparr> of
        (True, st) \<Rightarrow> (None, visits st)
      | (False, st) \<Rightarrow> (Some (thread st), visits st))"

section \<open>part\_000: the post client with configured special interactions\<close>

subsection \<open>State and helpers\<close>

record PostSchedule =
  minMinutes :: int
  maxMinutes :: int
  lastPostTime :: int

record PostResponse =
  content :: string
  isSpecialInteraction :: bool
  interactionType :: "string option"

text \<open>The fields of the class.  \<open>specialInteractions\<close> is the object with its keys in
  enumeration order; the cooldown is \<open>None\<close> when \<open>parseInt\<close> gave \<open>NaN\<close>.\<close>

record TwitterPostClient =
  schedule :: PostSchedule
  isPosting :: bool
  lastSpecialInteraction :: "string \<rightharpoonup> int"
  specialInteractions :: "(string \<times> SpecialInteraction) list"
  specialInteractionCooldown :: "int option"

text \<open>lodash \<open>sample\<close>: \<open>undefined\<close> for an empty collection, otherwise the element at the
  random index the generator gives.\<close>

definition sample :: "nat \<Rightarrow> 'a list \<Rightarrow> 'a option" where
  "sample i xs = (if xs = [] then None else Some (xs ! (i mod length xs)))"

text \<open>\<open>elapsed < cooldown\<close> on numbers: false when the cooldown is \<open>NaN\<close>.\<close>

definition lessThanCooldown :: "int \<Rightarrow> int option \<Rightarrow> bool" where
  "lessThanCooldown elapsed cooldown = (case cooldown of None \<Rightarrow> False | Some C \<Rightarrow> elapsed < C)"

text \<open>\<open>s.replaceAll(/\\n/g, "\n")\<close>: a backslash followed by \<open>n\<close> becomes a line feed.\<close>

fun unescapeNewlines :: "string \<Rightarrow> string" where
  "unescapeNewlines (c # d # rest) =
     (if c = CHR 0x5C \<and> d = CHR ''n'' then CHR 0x0A # unescapeNewlines rest
      else c # unescapeNewlines (d # rest))"
| "unescapeNewlines s = s"

subsection \<open>Selection of a special interaction\<close>

definition shouldTriggerSpecialInteraction ::
  "int \<Rightarrow> real \<Rightarrow> TwitterPostClient \<Rightarrow> string \<Rightarrow> bool" where
  "shouldTriggerSpecialInteraction now random c type =
     (let lastTime = getOr0 (lastSpecialInteraction c) type
      in case map_of (specialInteractions c) type of
           None \<Rightarrow> False
         | Some interaction \<Rightarrow>
             if lessThanCooldown (now - lastTime) (specialInteractionCooldown c) then False
             else random < probability interaction)"

definition generateSpecialTweet ::
  "nat \<Rightarrow> nat \<Rightarrow> int \<Rightarrow> TwitterPostClient \<Rightarrow> string \<Rightarrow> PostResponse option \<times> TwitterPostClient" where
  "generateSpecialTweet templateIndex topicIndex now c type =
     (case map_of (specialInteractions c) type of
        None \<Rightarrow> (None, c)
      | Some interaction \<Rightarrow>
          let template = sample templateIndex (templates interaction);
              topic = sample topicIndex (topics interaction)
          in if \<not> truthy template \<or> \<not> truthy topic then (None, c)
             else
               (case template of
                  None \<Rightarrow> (None, c)
                | Some tpl \<Rightarrow>
                    (Some \<lparr>content = handle interaction @ '' '' @ tpl,
                           isSpecialInteraction = True,
                           interactionType = Some type\<rparr>,
                     c\<lparr>lastSpecialInteraction := (lastSpecialInteraction c)(type \<mapsto> now)\<rparr>)))"

subsection \<open>Content generation and posting\<close>

text \<open>The awaited calls that may reject, in the order the code reaches them.\<close>

datatype stage =
    AtEnsureUser
  | AtGetCachedTimeline
  | AtFetchHomeTimeline
  | AtCacheTimeline
  | AtGenerateText
  | AtSendTweet
  | AtReadResponse
  | AtGetCachedTimelineAgain
  | AtCacheTimelineAgain
  | AtCacheTweet
  | AtCacheSetLastPost
  | AtEnsureRoom
  | AtCreateMemory

text \<open>What the generators, the clock, the settings, the cache and the network answer during
  one call of \<open>generateNewTweet\<close>.\<close>

record PostEnv =
  fails :: "stage \<Rightarrow> bool"
  typeIndex :: nat
  nowTrigger :: int
  randomTrigger :: real
  templateIndex :: nat
  topicIndex :: nat
  nowStamp :: int
  cachedTimeline :: "Tweet list option"
  fetchedTimeline :: "Tweet list"
  generatedText :: string
  dryRunSetting :: "string option"
  postedTweet :: Tweet
  cachedTimelineAgain :: "Tweet list option"
  nowPosted :: int

record PostInfo =
  id_info :: string
  timestamp_info :: int
  type_info :: "string option"

text \<open>The calls that write outside the object, and the log lines that tell the branches
  apart.\<close>

datatype postEvent =
    InProgressSkipped
  | UserEnsured
  | TimelineCached "Tweet list"
  | NoContentWarned
  | DryRunLogged string
  | SendTweetCalled string
  | TweetCached Tweet
  | LastPostCached PostInfo
  | TweetPostedLogged
  | RoomEnsured
  | MemoryCreated string
  | PostErrorLogged

definition generateTweetContent ::
  "PostEnv \<Rightarrow> TwitterPostClient \<Rightarrow> PostResponse outcome \<times> TwitterPostClient \<times> postEvent list" where
  "generateTweetContent env c =
     (let interactionTypes = map fst (specialInteractions c);
          randomType = sample (typeIndex env) interactionTypes;
          special =
            (if truthy randomType then
               (case randomType of
                  None \<Rightarrow> (None, c)
                | Some type \<Rightarrow>
                    if shouldTriggerSpecialInteraction (nowTrigger env) (randomTrigger env) c type
                    then generateSpecialTweet (templateIndex env) (topicIndex env) (nowStamp env) c type
                    else (None, c))
             else (None, c))
      in case special of
           (Some specialTweet, c1) \<Rightarrow> (Returns specialTweet, c1, [])
         | (None, c1) \<Rightarrow>
             if fails env AtGetCachedTimeline then (Throws, c1, [])
             else
               let fill =
                     (case cachedTimeline env of
                        Some timeline \<Rightarrow> Returns []
                      | None \<Rightarrow>
                          if fails env AtFetchHomeTimeline then Throws
                          else if fails env AtCacheTimeline then Throws
                          else Returns [TimelineCached (fetchedTimeline env)])
               in (case fill of
                     Throws \<Rightarrow> (Throws, c1, [])
                   | Returns evs \<Rightarrow>
                       if fails env AtGenerateText then (Throws, c1, evs)
                       else
                         let formattedTweet = trim (unescapeNewlines (generatedText env))
                         in (Returns \<lparr>content = truncateToCompleteSentence formattedTweet,
                                      isSpecialInteraction = False,
                                      interactionType = None\<rparr>,
                             c1, evs)))"

text \<open>The statements of \<open>generateNewTweet\<close> after \<open>sendTweet\<close> has returned; the first
  component tells whether one of them threw.\<close>

definition afterSend ::
  "PostEnv \<Rightarrow> PostResponse \<Rightarrow> TwitterPostClient \<Rightarrow> bool \<times> TwitterPostClient \<times> postEvent list" where
  "afterSend env tweetResponse c =
     (if fails env AtReadResponse then (True, c, [])
      else
        let tweet = postedTweet env
        in if fails env AtGetCachedTimelineAgain then (True, c, [])
           else
             let homeTimeline = tweet # (case cachedTimelineAgain env of None \<Rightarrow> [] | Some timeline \<Rightarrow> timeline)
             in if fails env AtCacheTimelineAgain then (True, c, [])
                else if fails env AtCacheTweet then (True, c, [TimelineCached homeTimeline])
                else
                  let postInfo =
                        \<lparr>id_info = id_tw tweet,
                         timestamp_info = nowPosted env,
                         type_info = (if isSpecialInteraction tweetResponse
                                      then interactionType tweetResponse else Some ''normal'')\<rparr>;
                      evs = [TimelineCached homeTimeline, TweetCached tweet]
                  in if fails env AtCacheSetLastPost then (True, c, evs)
                     else
                       let c1 = c\<lparr>schedule := (schedule c)\<lparr>lastPostTime := timestamp_info postInfo\<rparr>\<rparr>;
                           evs1 = evs @ [LastPostCached postInfo, TweetPostedLogged]
                       in if fails env AtEnsureRoom then (True, c1, evs1)
                          else if fails env AtCreateMemory then (True, c1, evs1 @ [RoomEnsured])
                          else (False, c1,
                                evs1 @ [RoomEnsured, MemoryCreated (trim (content tweetResponse))]))"

definition generateNewTweet ::
  "PostEnv \<Rightarrow> TwitterPostClient \<Rightarrow> TwitterPostClient \<times> postEvent list" where
  "generateNewTweet env c =
     (if isPosting c then (c, [InProgressSkipped])
      else
        let c0 = c\<lparr>isPosting := True\<rparr>;
            (c9, evs9) =
              (if fails env AtEnsureUser then (c0, [PostErrorLogged])
               else
                 (case generateTweetContent env c0 of
                   (Throws, c1, evs) \<Rightarrow> (c1, UserEnsured # evs @ [PostErrorLogged])
                 | (Returns tweetResponse, c1, evs) \<Rightarrow>
                     if content tweetResponse = [] then (c1, UserEnsured # evs @ [NoContentWarned])
                     else if dryRunSetting env = Some ''true''
                     then (c1, UserEnsured # evs @ [DryRunLogged (content tweetResponse)])
                     else if fails env AtSendTweet
                     then (c1, UserEnsured # evs @
                                 [SendTweetCalled (content tweetResponse), PostErrorLogged])
                     else
                       (case afterSend env tweetResponse c1 of
                          (True, c2, evs2) \<Rightarrow>
                            (c2, UserEnsured # evs @ [SendTweetCalled (content tweetResponse)] @
                                   evs2 @ [PostErrorLogged])
                        | (False, c2, evs2) \<Rightarrow>
                            (c2, UserEnsured # evs @ [SendTweetCalled (content tweetResponse)] @ evs2))))
        in (c9\<lparr>isPosting := False\<rparr>, evs9))"

text \<open>A sequence of selection calls, one per element of the list.\<close>

fun generateTweetContents ::
  "PostEnv list \<Rightarrow> TwitterPostClient \<Rightarrow> PostResponse outcome list \<times> TwitterPostClient" where
  "generateTweetContents [] c = ([], c)"
| "generateTweetContents (env # later) c =
     (case generateTweetContent env c of
        (r, c1, evs) \<Rightarrow>
          (case generateTweetContents later c1 of (rs, c2) \<Rightarrow> (r # rs, c2)))"

section \<open>Reading a trace\<close>

text \<open>The number of returns of \<open>handleTweet\<close> with the action \<open>RESPOND\<close> in a trace, among
  the posts that satisfy \<open>P\<close>.\<close>

definition isReplyTo :: "(Tweet \<Rightarrow> bool) \<Rightarrow> event \<Rightarrow> bool" where
  "isReplyTo P e = (case e of HandleReturned tweet a \<Rightarrow> a = Some ''RESPOND'' \<and> P tweet | _ \<Rightarrow> False)"

definition repliesCounted :: "(Tweet \<Rightarrow> bool) \<Rightarrow> event list \<Rightarrow> nat" where
  "repliesCounted P evs = length (filter (isReplyTo P) evs)"

text \<open>The tracked state \<open>c'\<close> is the state \<open>c\<close> with the replies of the trace counted, and
  nothing else changed in it.\<close>

definition accounted :: "InteractionClient \<Rightarrow> InteractionClient \<Rightarrow> event list \<Rightarrow> bool" where
  "accounted c c' evs \<longleftrightarrow>
     (\<forall>u. getOr0 (recentReplies c') u =
            getOr0 (recentReplies c) u + repliesCounted (\<lambda>t. userId t = u) evs) \<and>
     (\<forall>v. getOr0 (threadReplies c') v =
            getOr0 (threadReplies c) v + repliesCounted (\<lambda>t. conversationId t = v) evs) \<and>
     (\<forall>u. repliesCounted (\<lambda>t. userId t = u) evs = 0 \<longrightarrow>
            recentReplies c' u = recentReplies c u \<and> lastReplyTime c' u = lastReplyTime c u) \<and>
     (\<forall>v. repliesCounted (\<lambda>t. conversationId t = v) evs = 0 \<longrightarrow>
            threadReplies c' v = threadReplies c v) \<and>
     Checking \<notin> set evs \<and> profileId c' = profileId c"

section \<open>Concrete configurations and runs\<close>

text \<open>No setting is present: every limit takes its default.\<close>

definition defaultSettings :: LimitSettings where
  "defaultSettings =
     \<lparr>MAX_REPLIES_PER_THREAD = None, MAX_REPLIES_PER_USER = None, MIN_TIME_BETWEEN_REPLIES = None,
      CHECK_INTERVAL_MINUTES = None, REPLY_PROBABILITY = None\<rparr>"

text \<open>A post client configured with one special interaction that always fires, and the
  same client with none.\<close>

definition tateInteraction :: SpecialInteraction where
  "tateInteraction =
     \<lparr>handle = ''@Cobratate'', topics = [''paper hands''],
      templates = [''Paper hands never make generational wealth... just saying''],
      probability = 1\<rparr>"

definition tateClient :: TwitterPostClient where
  "tateClient =
     \<lparr>schedule = \<lparr>minMinutes = 90, maxMinutes = 180, lastPostTime = 0\<rparr>,
      isPosting = False, lastSpecialInteraction = Map.empty,
      specialInteractions = [(''tate'', tateInteraction)],
      specialInteractionCooldown = Some 86400000\<rparr>"

definition plainClient :: TwitterPostClient where
  "plainClient = tateClient\<lparr>specialInteractions := []\<rparr>"

definition tatePost :: PostResponse where
  "tatePost =
     \<lparr>content = ''@Cobratate Paper hands never make generational wealth... just saying'',
      isSpecialInteraction = True, interactionType = Some ''tate''\<rparr>"

definition tateStamped :: "int \<Rightarrow> TwitterPostClient" where
  "tateStamped t = tateClient\<lparr>lastSpecialInteraction := [''tate'' \<mapsto> t]\<rparr>"

text \<open>A run of \<open>generateNewTweet\<close> at clock \<open>t\<close> in which nothing throws, the timeline
  cache is empty, every draw is 0 and the dry-run setting is \<open>"true"\<close>; and the same run
  without the dry-run setting in which \<open>sendTweet\<close> rejects.\<close>

definition ownTweet :: Tweet where
  "ownTweet =
     \<lparr>id_tw = ''1850000000000000001'', userId = ''bot'', conversationId = ''1850000000000000001'',
      inReplyToStatusId = None, text_tw = ''gm'',
      permanentUrl = ''https://twitter.com/willy/status/1850000000000000001''\<rparr>"

definition timelineTweet :: Tweet where
  "timelineTweet =
     \<lparr>id_tw = ''1849999999999999999'', userId = ''carol'', conversationId = ''1849999999999999999'',
      inReplyToStatusId = None, text_tw = ''hello'',
      permanentUrl = ''https://twitter.com/carol/status/1849999999999999999''\<rparr>"

definition dryRunAt :: "int \<Rightarrow> PostEnv" where
  "dryRunAt t =
     \<lparr>fails = (\<lambda>s. False), typeIndex = 0, nowTrigger = t, randomTrigger = 0,
      templateIndex = 0, topicIndex = 0, nowStamp = t, cachedTimeline = None,
      fetchedTimeline = [timelineTweet], generatedText = ''gm'', dryRunSetting = Some ''true'',
      postedTweet = ownTweet, cachedTimelineAgain = None, nowPosted = t\<rparr>"

definition sendFailsAt :: "int \<Rightarrow> PostEnv" where
  "sendFailsAt t = (dryRunAt t)\<lparr>dryRunSetting := None, fails := (\<lambda>s. s = AtSendTweet)\<rparr>"

text \<open>A mention of the agent by another user, the answers of the collaborators when the
  agent decides to respond and every call returns, and a candidate seen at a fixed clock with
  the draw \<open>r\<close>.\<close>

definition mention :: "string \<Rightarrow> string \<Rightarrow> Tweet" where
  "mention i u =
     \<lparr>id_tw = i, userId = u, conversationId = i, inReplyToStatusId = None,
      text_tw = ''@willy gm'', permanentUrl = ''https://twitter.com/'' @ u @ ''/status/'' @ i\<rparr>"

definition respondEnv :: HandleEnv where
  "respondEnv =
     \<lparr>decisionThrows = False, shouldRespond = Some ''RESPOND'', responseThrows = False,
      responseText = ''gm'', sendThrows = False, afterSendThrows = False\<rparr>"

definition drawing :: "real \<Rightarrow> TweetEnv" where
  "drawing r =
     \<lparr>nowCanReply = 1700000000000, randomReply = r, connectionThrows = False,
      threadThrows = False, handleEnv = respondEnv, nowTracking = 1700000000500\<rparr>"

definition batchOf :: "(Tweet \<times> TweetEnv) list \<Rightarrow> BatchEnv" where
  "batchOf candidates = \<lparr>searchResult = Returns candidates, cacheCheckpointThrows = False\<rparr>"

text \<open>The interaction client with the default limits and a checkpoint below the ids used.\<close>

definition botClient :: InteractionClient where
  "botClient = newInteractionClient defaultSettings ''bot'' (Some 1849999999999999999)"


text \<open>Two mentions in one batch, where an awaited call rejects while the first is handled.\<close>

definition decisionFails :: TweetEnv where
  "decisionFails = (drawing (1 / 10))\<lparr>handleEnv := respondEnv\<lparr>decisionThrows := True\<rparr>\<rparr>"

definition failingThenFine :: BatchEnv where
  "failingThenFine =
     batchOf [(mention ''1850000000000000001'' ''alice'', decisionFails),
              (mention ''1850000000000000002'' ''carol'', drawing (1 / 10))]"

text \<open>Two polls that both find the same mention: the draw skips it in the first poll and
  admits it in the second.\<close>

definition skippedThenSeenAgain :: "BatchEnv list" where
  "skippedThenSeenAgain =
     [batchOf [(mention ''1850000000000000001'' ''alice'', drawing (9 / 10))],
      batchOf [(mention ''1850000000000000001'' ''alice'', drawing (1 / 10))]]"



text \<open>A post that names itself as the post it replies to, and a network that returns it.\<close>

definition selfTweet :: Tweet where
  "selfTweet =
     \<lparr>id_tw = ''1800000000000000007'', userId = ''alice'', conversationId = ''1800000000000000007'',
      inReplyToStatusId = Some ''1800000000000000007'', text_tw = ''@willy gm'',
      permanentUrl = ''https://twitter.com/alice/status/1800000000000000007''\<rparr>"

definition selfWorld :: ThreadWorld where
  "selfWorld = \<lparr>memoryThrows = (\<lambda>depth tweet. False),
                 getTweet = (\<lambda>depth parentId. if parentId = id_tw selfTweet then Returns (Some selfTweet) else Returns None)\<rparr>"

section \<open>Properties of the truncation\<close>

lemma truncate_short_unchanged:
  "length text0 \<le> 280 \<Longrightarrow> truncateToCompleteSentence text0 = text0"
  by (simp add: truncateToCompleteSentence_def MAX_TWEET_LENGTH_def)

text \<open>
  The period branch keeps the period found at index 280 and so returns 281 code units; with no
  period and no blank, \<open>lastIndexOf\<close> gives \<open>-1\<close> and \<open>slice(0, -1)\<close> drops only the last
  code unit, so the hard cut of the fallback is not reached.
\<close>

lemma truncate_period_at_280:
  "truncateToCompleteSentence (replicate 280 (CHR ''a'') @ ''.'') = replicate 280 (CHR ''a'') @ ''.''"
  by code_simp

lemma truncate_no_boundary:
  "truncateToCompleteSentence (replicate 300 (CHR ''a'')) = replicate 299 (CHR ''a'') @ ''...''"
  by code_simp

text \<open>
  Claim C2 (the result of \<open>truncateToCompleteSentence\<close> has length at most 280).  The code
  does not keep the bound: on the 284 code units made of 56 times \<open>word\<close> and a blank,
  followed by \<open>tail\<close>, there is no period, the last blank up to index 280 is at index 279,
  and the 279 code units before it get the three dots appended: the result has 282 code
  units.
\<close>

theorem truncateToCompleteSentence_exceeds_limit:
  "length (concat (replicate 56 ''word '') @ ''tail'') = 284 \<and>
   truncateToCompleteSentence (concat (replicate 56 ''word '') @ ''tail'') =
     concat (replicate 55 ''word '') @ ''word...'' \<and>
   length (truncateToCompleteSentence (concat (replicate 56 ''word '') @ ''tail'')) = 282"
  by code_simp

section \<open>Properties of the post client of post.ts\<close>

lemma pickInteraction_key:
  "pickInteraction r acc xs = Some t \<Longrightarrow> t \<in> fst ` set xs"
proof (induction xs arbitrary: acc)
  case Nil
  then show ?case by simp
next
  case (Cons x xs)
  obtain k i where x: "x = (k, i)" by (cases x)
  show ?case
  proof (cases "r < acc + probability i")
    case True
    with Cons.prems x show ?thesis by (simp add: Let_def)
  next
    case False
    with Cons.prems x have "pickInteraction r (acc + probability i) xs = Some t"
      by (simp add: Let_def)
    from Cons.IH[OF this] show ?thesis by simp
  qed
qed

lemma SPECIAL_INTERACTIONS_keys_truthy:
  "t \<in> fst ` set SPECIAL_INTERACTIONS \<Longrightarrow> truthy (Some t)"
  by (auto simp: SPECIAL_INTERACTIONS_def)

lemma shouldGenerateSpecialInteraction_stores_type:
  assumes "fst (shouldGenerateSpecialInteraction r c) = Some t"
  shows "truthy (lastInteractionType (snd (shouldGenerateSpecialInteraction r c)))"
proof -
  from assms have notLast: "\<not> truthy (lastInteractionType c)"
    by (auto simp: shouldGenerateSpecialInteraction_def split: if_splits)
  with assms have pick: "pickInteraction r 0 SPECIAL_INTERACTIONS = Some t"
    by (auto simp: shouldGenerateSpecialInteraction_def split: option.splits)
  from pick have "truthy (Some t)"
    by (rule SPECIAL_INTERACTIONS_keys_truthy[OF pickInteraction_key])
  with notLast pick show ?thesis
    by (simp add: shouldGenerateSpecialInteraction_def)
qed

text \<open>
  Claim C10 (post.ts): two consecutive calls of \<open>shouldGenerateSpecialInteraction\<close> never
  both return a type.  Whatever the two random draws are, the call that follows a call
  which returned a type returns \<open>null\<close> and leaves the stored type cleared.
\<close>

theorem shouldGenerateSpecialInteraction_never_back_to_back:
  assumes "fst (shouldGenerateSpecialInteraction r1 c) = Some t"
  shows "fst (shouldGenerateSpecialInteraction r2 (snd (shouldGenerateSpecialInteraction r1 c))) = None \<and>
         lastInteractionType
           (snd (shouldGenerateSpecialInteraction r2 (snd (shouldGenerateSpecialInteraction r1 c)))) = None"
  using shouldGenerateSpecialInteraction_stores_type[OF assms]
  by (simp add: shouldGenerateSpecialInteraction_def)

theorem shouldGenerateSpecialInteraction_never_back_to_back_witness:
  "fst (shouldGenerateSpecialInteraction (1 / 10) \<lparr>lastInteractionType = None\<rparr>) = Some ''tate'' \<and>
   fst (shouldGenerateSpecialInteraction (1 / 20)
         (snd (shouldGenerateSpecialInteraction (1 / 10) \<lparr>lastInteractionType = None\<rparr>))) = None"
proof -
  have h: "fst (shouldGenerateSpecialInteraction (1 / 10) \<lparr>lastInteractionType = None\<rparr>) = Some ''tate''"
    by (simp add: shouldGenerateSpecialInteraction_def SPECIAL_INTERACTIONS_def)
  from shouldGenerateSpecialInteraction_never_back_to_back[OF h, of "1 / 20"] h
  show ?thesis by simp
qed

section \<open>Properties of the rate limits\<close>

lemma getOr0_None: "m k = None \<Longrightarrow> getOr0 m k = 0"
  by (simp add: getOr0_def)

lemma getOr0_Some: "m k = Some v \<Longrightarrow> getOr0 m k = v"
  by (simp add: getOr0_def)

text \<open>
  Claim C8, as the code has it: \<open>canReplyToUser\<close> is true exactly when the recorded reply
  count of the user (0 when there is none) is below \<open>maxRepliesPerUser\<close> and the time since
  the recorded last reply (recorded as 0 when there is none) is at least
  \<open>minTimeBetweenReplies\<close>.  A user with no recorded entry is permitted when
  \<open>maxRepliesPerUser\<close> is positive and the clock has reached \<open>minTimeBetweenReplies\<close>.
\<close>

theorem canReplyToUser_iff:
  "(canReplyToUser now c user \<longleftrightarrow>
      (case recentReplies c user of None \<Rightarrow> 0 | Some n \<Rightarrow> int n) < maxRepliesPerUser (limits c) \<and>
      now - (case lastReplyTime c user of None \<Rightarrow> 0 | Some t \<Rightarrow> t) \<ge> minTimeBetweenReplies (limits c)) \<and>
   (recentReplies c user = None \<and> lastReplyTime c user = None \<and>
    0 < maxRepliesPerUser (limits c) \<and> minTimeBetweenReplies (limits c) \<le> now
      \<longrightarrow> canReplyToUser now c user)"
  by (auto simp: canReplyToUser_def getOr0_def Let_def split: option.splits)

theorem canReplyToUser_iff_witness:
  "recentReplies (newInteractionClient defaultSettings ''bot'' None) ''alice'' = None \<and>
   lastReplyTime (newInteractionClient defaultSettings ''bot'' None) ''alice'' = None \<and>
   maxRepliesPerUser (limits (newInteractionClient defaultSettings ''bot'' None)) = 5 \<and>
   minTimeBetweenReplies (limits (newInteractionClient defaultSettings ''bot'' None)) = 300000 \<and>
   canReplyToUser 1700000000000 (newInteractionClient defaultSettings ''bot'' None) ''alice''"
proof -
  let ?c = "newInteractionClient defaultSettings ''bot'' None"
  have h: "recentReplies ?c ''alice'' = None" "lastReplyTime ?c ''alice'' = None"
    "maxRepliesPerUser (limits ?c) = 5" "minTimeBetweenReplies (limits ?c) = 300000"
    by (simp_all add: newInteractionClient_def defaultSettings_def initLimits_def orDefault_def)
  from canReplyToUser_iff[of 1700000000000 ?c "''alice''"] h
  have "canReplyToUser 1700000000000 ?c ''alice''" by simp
  with h show ?thesis by simp
qed

text \<open>
  Claim C8 as stated says that a user with no recorded entry is always permitted.  With the
  setting \<open>MAX_REPLIES_PER_USER = "-1"\<close>, which \<open>parseInt(...) || 5\<close> keeps, such a user
  is refused.
\<close>

theorem canReplyToUser_new_user_refused:
  "recentReplies (newInteractionClient (defaultSettings\<lparr>MAX_REPLIES_PER_USER := Some (- 1)\<rparr>) ''bot'' None) ''alice'' = None \<and>
   lastReplyTime (newInteractionClient (defaultSettings\<lparr>MAX_REPLIES_PER_USER := Some (- 1)\<rparr>) ''bot'' None) ''alice'' = None \<and>
   \<not> canReplyToUser 1700000000000
       (newInteractionClient (defaultSettings\<lparr>MAX_REPLIES_PER_USER := Some (- 1)\<rparr>) ''bot'' None) ''alice''"
  by (simp add: canReplyToUser_def getOr0_def newInteractionClient_def defaultSettings_def initLimits_def orDefault_def)

section \<open>Properties of the post client of part\_000\<close>

lemmas fixtures = tateInteraction_def tateClient_def plainClient_def ownTweet_def timelineTweet_def
  dryRunAt_def sendFailsAt_def

subsection \<open>The cooldown of a special interaction\<close>

lemma cooldown_blocks:
  assumes "lastSpecialInteraction c T = Some t0" "specialInteractionCooldown c = Some C" "now < t0 + C"
  shows "\<not> shouldTriggerSpecialInteraction now r c T"
  using assms by (simp add: shouldTriggerSpecialInteraction_def getOr0_def lessThanCooldown_def Let_def split: option.splits)

lemma generateSpecialTweet_cases:
  "generateSpecialTweet i j now c ty = (res, c1) \<Longrightarrow>
     (res = None \<and> c1 = c) \<or>
     (\<exists>p. res = Some p \<and> interactionType p = Some ty \<and> isSpecialInteraction p \<and> content p \<noteq> [] \<and>
          c1 = c\<lparr>lastSpecialInteraction := (lastSpecialInteraction c)(ty \<mapsto> now)\<rparr>)"
  by (auto simp: generateSpecialTweet_def Let_def split: option.splits if_splits)

lemma generateTweetContent_cases:
  assumes "generateTweetContent env c = (r, c1, evs)"
  shows "(\<exists>p ty. r = Returns p \<and> isSpecialInteraction p \<and> interactionType p = Some ty \<and>
            content p \<noteq> [] \<and> evs = [] \<and>
            shouldTriggerSpecialInteraction (nowTrigger env) (randomTrigger env) c ty \<and>
            c1 = c\<lparr>lastSpecialInteraction := (lastSpecialInteraction c)(ty \<mapsto> nowStamp env)\<rparr>) \<or>
         (c1 = c \<and> set evs \<subseteq> {TimelineCached (fetchedTimeline env)} \<and>
            (r = Throws \<or> (\<exists>p. r = Returns p \<and> \<not> isSpecialInteraction p \<and> interactionType p = None)))"
  using assms unfolding generateTweetContent_def Let_def
  by (auto split: if_splits option.splits outcome.splits prod.splits dest!: generateSpecialTweet_cases)

lemma selection_keeps_cooldown:
  assumes "lastSpecialInteraction c T = Some t0" "specialInteractionCooldown c = Some C"
    and "nowTrigger env < t0 + C" and "generateTweetContent env c = (r, c1, evs)"
  shows "lastSpecialInteraction c1 T = Some t0 \<and> specialInteractionCooldown c1 = Some C \<and>
         (\<forall>p. r = Returns p \<longrightarrow> interactionType p \<noteq> Some T)"
proof -
  consider (special) p ty where
      "shouldTriggerSpecialInteraction (nowTrigger env) (randomTrigger env) c ty"
      "c1 = c\<lparr>lastSpecialInteraction := (lastSpecialInteraction c)(ty \<mapsto> nowStamp env)\<rparr>"
      "r = Returns p" "interactionType p = Some ty"
    | (normal) "c1 = c"
      "r = Throws \<or> (\<exists>p. r = Returns p \<and> \<not> isSpecialInteraction p \<and> interactionType p = None)"
    using generateTweetContent_cases[OF assms(4)] by blast
  then show ?thesis
  proof cases
    case special
    from special(1) cooldown_blocks[OF assms(1,2,3)] have "ty \<noteq> T" by auto
    with special assms(1,2) show ?thesis by auto
  next
    case normal
    with assms(1,2) show ?thesis by auto
  qed
qed

lemma selections_keep_cooldown:
  assumes "lastSpecialInteraction c T = Some t0" "specialInteractionCooldown c = Some C"
    and "\<forall>env \<in> set later. nowTrigger env < t0 + C"
  shows "lastSpecialInteraction (snd (generateTweetContents later c)) T = Some t0 \<and>
         (\<forall>r \<in> set (fst (generateTweetContents later c)). \<forall>p. r = Returns p \<longrightarrow> interactionType p \<noteq> Some T)"
  using assms
proof (induction later arbitrary: c)
  case Nil
  then show ?case by simp
next
  case (Cons env later)
  obtain r c1 evs where step: "generateTweetContent env c = (r, c1, evs)"
    by (cases "generateTweetContent env c") auto
  from Cons.prems have now: "nowTrigger env < t0 + C" by simp
  from selection_keeps_cooldown[OF Cons.prems(1,2) now step]
  have c1: "lastSpecialInteraction c1 T = Some t0" "specialInteractionCooldown c1 = Some C"
    and r: "\<forall>p. r = Returns p \<longrightarrow> interactionType p \<noteq> Some T" by auto
  from Cons.prems have "\<forall>env \<in> set later. nowTrigger env < t0 + C" by simp
  from Cons.IH[OF c1 this] r step show ?case
    by (auto split: prod.splits)
qed

lemma special_selection_stamps:
  assumes "generateTweetContent env c = (Returns p, c1, evs)" "interactionType p = Some T"
  shows "lastSpecialInteraction c1 T = Some (nowStamp env) \<and>
         specialInteractionCooldown c1 = specialInteractionCooldown c \<and>
         schedule c1 = schedule c \<and> isPosting c1 = isPosting c \<and> evs = [] \<and> content p \<noteq> []"
  using generateTweetContent_cases[OF assms(1)] assms(2) by auto

text \<open>
  Claim C3: once a selection call has triggered the special interaction \<open>T\<close> and stamped
  \<open>lastSpecialInteraction[T]\<close> with the clock value \<open>t0\<close>, no selection call whose clock is
  strictly before \<open>t0 + C\<close> triggers \<open>T\<close> again, for every cooldown \<open>C\<close>, every number
  of later calls and every draw in them; the stamp stays at \<open>t0\<close> meanwhile.
\<close>

theorem special_interaction_cooldown:
  assumes "generateTweetContent env0 c0 = (Returns p0, c, evs0)" and "interactionType p0 = Some T"
    and "specialInteractionCooldown c0 = Some C"
    and "\<forall>env \<in> set later. nowTrigger env < nowStamp env0 + C"
  shows "lastSpecialInteraction c T = Some (nowStamp env0) \<and>
         (\<forall>r \<in> set (fst (generateTweetContents later c)).
            \<forall>p. r = Returns p \<longrightarrow> interactionType p \<noteq> Some T) \<and>
         lastSpecialInteraction (snd (generateTweetContents later c)) T = Some (nowStamp env0) \<and>
         (\<forall>now random. now < nowStamp env0 + C \<longrightarrow>
            \<not> shouldTriggerSpecialInteraction now random c T)"
proof -
  from special_selection_stamps[OF assms(1,2)] assms(3)
  have st: "lastSpecialInteraction c T = Some (nowStamp env0)" and cd: "specialInteractionCooldown c = Some C"
    by auto
  from selections_keep_cooldown[OF st cd assms(4)] st cooldown_blocks[OF st cd]
  show ?thesis by blast
qed

lemma tate_selected:
  "generateTweetContent (dryRunAt 1700000000000) tateClient = (Returns tatePost, tateStamped 1700000000000, [])"
  by (simp add: generateTweetContent_def generateSpecialTweet_def shouldTriggerSpecialInteraction_def
      sample_def getOr0_def lessThanCooldown_def fixtures tatePost_def tateStamped_def Let_def)

lemma tate_selected_send_fails:
  "generateTweetContent (sendFailsAt 1700000000000) tateClient = (Returns tatePost, tateStamped 1700000000000, [])"
  by (simp add: generateTweetContent_def generateSpecialTweet_def shouldTriggerSpecialInteraction_def
      sample_def getOr0_def lessThanCooldown_def fixtures tatePost_def tateStamped_def Let_def)

theorem special_interaction_cooldown_witness:
  "generateTweetContent (dryRunAt 1700000000000) tateClient =
     (Returns tatePost, tateStamped 1700000000000, []) \<and>
   interactionType tatePost = Some ''tate'' \<and>
   specialInteractionCooldown tateClient = Some 86400000 \<and>
   map nowTrigger [dryRunAt 1700000001000, dryRunAt 1700086399999] = [1700000001000, 1700086399999] \<and>
   lastSpecialInteraction (tateStamped 1700000000000) ''tate'' = Some 1700000000000 \<and>
   Returns tatePost \<notin> set (fst (generateTweetContents [dryRunAt 1700000001000, dryRunAt 1700086399999]
                                 (tateStamped 1700000000000))) \<and>
   \<not> shouldTriggerSpecialInteraction 1700086399999 0 (tateStamped 1700000000000) ''tate''"
proof -
  have h2: "interactionType tatePost = Some ''tate''" by (simp add: tatePost_def)
  have h3: "specialInteractionCooldown tateClient = Some 86400000" by (simp add: tateClient_def)
  have h4: "\<forall>env \<in> set [dryRunAt 1700000001000, dryRunAt 1700086399999].
              nowTrigger env < nowStamp (dryRunAt 1700000000000) + 86400000"
    by (simp add: dryRunAt_def)
  from special_interaction_cooldown[OF tate_selected h2 h3 h4] tate_selected h2 h3
  show ?thesis by (auto simp: dryRunAt_def)
qed

subsection \<open>Runs that publish nothing\<close>

lemma shouldTrigger_isPosting [simp]:
  "shouldTriggerSpecialInteraction now r (c\<lparr>isPosting := b\<rparr>) ty = shouldTriggerSpecialInteraction now r c ty"
  by (simp add: shouldTriggerSpecialInteraction_def split: option.splits)

lemma generateSpecialTweet_isPosting:
  "generateSpecialTweet i j now (c\<lparr>isPosting := b\<rparr>) ty =
     (case generateSpecialTweet i j now c ty of (res, c1) \<Rightarrow> (res, c1\<lparr>isPosting := b\<rparr>))"
  by (simp add: generateSpecialTweet_def Let_def split: option.splits)

lemma generateTweetContent_isPosting:
  "generateTweetContent env (c\<lparr>isPosting := b\<rparr>) =
     (case generateTweetContent env c of (r, c1, evs) \<Rightarrow> (r, c1\<lparr>isPosting := b\<rparr>, evs))"
  unfolding generateTweetContent_def Let_def
  by (simp add: generateSpecialTweet_isPosting split: option.splits prod.splits outcome.splits)

lemma generateNewTweet_dry:
  assumes "dryRunSetting env = Some ''true''" "\<not> isPosting c" "\<not> fails env AtEnsureUser"
    and "generateTweetContent env c = (r, c1, evs)"
  shows "generateNewTweet env c =
           (c1\<lparr>isPosting := False\<rparr>,
            UserEnsured # evs @
              [case r of Throws \<Rightarrow> PostErrorLogged
               | Returns p \<Rightarrow> if content p = [] then NoContentWarned else DryRunLogged (content p)])"
  using assms
  by (simp add: generateNewTweet_def generateTweetContent_isPosting Let_def split: outcome.splits)

lemma generateNewTweet_send_fails:
  assumes "dryRunSetting env \<noteq> Some ''true''" "fails env AtSendTweet" "\<not> isPosting c" "\<not> fails env AtEnsureUser"
    and "generateTweetContent env c = (Returns p, c1, evs)" "content p \<noteq> []"
  shows "generateNewTweet env c =
           (c1\<lparr>isPosting := False\<rparr>, UserEnsured # evs @ [SendTweetCalled (content p), PostErrorLogged])"
  using assms
  by (simp add: generateNewTweet_def generateTweetContent_isPosting Let_def split: outcome.splits)

text \<open>
  Claim C9 (part\_000): \<open>generateSpecialTweet\<close> stamps \<open>lastSpecialInteraction[T]\<close> while
  the content is generated, before any send.  When the run is a dry run, or \<open>sendTweet\<close>
  rejects, nothing is published and \<open>lastPostTime\<close> keeps its value, yet the stamp is the
  clock value of the run and \<open>T\<close> cannot trigger before the cooldown has passed.
\<close>

theorem special_stamp_survives_unpublished_run:
  assumes "\<not> isPosting c" and "\<not> fails env AtEnsureUser"
    and "generateTweetContent env c = (Returns p, c1, evs)" and "interactionType p = Some T"
    and "dryRunSetting env = Some ''true'' \<or> fails env AtSendTweet"
    and "specialInteractionCooldown c = Some C"
  shows "lastSpecialInteraction c1 T = Some (nowStamp env) \<and>
         fst (generateNewTweet env c) = c1\<lparr>isPosting := False\<rparr> \<and>
         snd (generateNewTweet env c) =
           (if dryRunSetting env = Some ''true'' then [UserEnsured, DryRunLogged (content p)]
            else [UserEnsured, SendTweetCalled (content p), PostErrorLogged]) \<and>
         schedule (fst (generateNewTweet env c)) = schedule c \<and>
         (\<forall>now random. now < nowStamp env + C \<longrightarrow>
            \<not> shouldTriggerSpecialInteraction now random (fst (generateNewTweet env c)) T)"
proof -
  from special_selection_stamps[OF assms(3,4)] assms(6)
  have st: "lastSpecialInteraction c1 T = Some (nowStamp env)"
    and cd: "specialInteractionCooldown c1 = Some C"
    and sch: "schedule c1 = schedule c" and evs: "evs = []" and ne: "content p \<noteq> []"
    by auto
  have run: "generateNewTweet env c =
      (c1\<lparr>isPosting := False\<rparr>,
       if dryRunSetting env = Some ''true'' then [UserEnsured, DryRunLogged (content p)]
       else [UserEnsured, SendTweetCalled (content p), PostErrorLogged])"
  proof (cases "dryRunSetting env = Some ''true''")
    case True
    from generateNewTweet_dry[OF True assms(1,2,3)] evs ne True show ?thesis by simp
  next
    case False
    with assms(5) have "fails env AtSendTweet" by simp
    from generateNewTweet_send_fails[OF False this assms(1,2,3) ne] evs False show ?thesis by simp
  qed
  have st': "lastSpecialInteraction (c1\<lparr>isPosting := False\<rparr>) T = Some (nowStamp env)"
    and cd': "specialInteractionCooldown (c1\<lparr>isPosting := False\<rparr>) = Some C"
    using st cd by simp_all
  from cooldown_blocks[OF st' cd'] run st sch show ?thesis by simp
qed

theorem special_stamp_survives_unpublished_run_witness:
  "\<not> isPosting tateClient \<and> \<not> fails (sendFailsAt 1700000000000) AtEnsureUser \<and>
   fails (sendFailsAt 1700000000000) AtSendTweet \<and>
   snd (generateNewTweet (sendFailsAt 1700000000000) tateClient) =
     [UserEnsured, SendTweetCalled (content tatePost), PostErrorLogged] \<and>
   lastSpecialInteraction (fst (generateNewTweet (sendFailsAt 1700000000000) tateClient)) ''tate'' =
     Some 1700000000000 \<and>
   \<not> shouldTriggerSpecialInteraction 1700086399999 0
       (fst (generateNewTweet (sendFailsAt 1700000000000) tateClient)) ''tate''"
proof -
  have h1: "\<not> isPosting tateClient" by (simp add: tateClient_def)
  have h2: "\<not> fails (sendFailsAt 1700000000000) AtEnsureUser" by (simp add: sendFailsAt_def dryRunAt_def)
  have h4: "interactionType tatePost = Some ''tate''" by (simp add: tatePost_def)
  have h5: "dryRunSetting (sendFailsAt 1700000000000) = Some ''true'' \<or>
            fails (sendFailsAt 1700000000000) AtSendTweet"
    by (simp add: sendFailsAt_def dryRunAt_def)
  have h6: "specialInteractionCooldown tateClient = Some 86400000" by (simp add: tateClient_def)
  have h7: "fails (sendFailsAt 1700000000000) AtSendTweet" "dryRunSetting (sendFailsAt 1700000000000) = None"
    "nowStamp (sendFailsAt 1700000000000) = 1700000000000"
    by (simp_all add: sendFailsAt_def dryRunAt_def)
  note th = special_stamp_survives_unpublished_run[OF h1 h2 tate_selected_send_fails h4 h5 h6]
  from th have run: "fst (generateNewTweet (sendFailsAt 1700000000000) tateClient) =
                       (tateStamped 1700000000000)\<lparr>isPosting := False\<rparr>"
    by blast
  from th h7 have evs: "snd (generateNewTweet (sendFailsAt 1700000000000) tateClient) =
                       [UserEnsured, SendTweetCalled (content tatePost), PostErrorLogged]"
    by simp
  from th h7 have stamp: "lastSpecialInteraction (tateStamped 1700000000000) ''tate'' = Some 1700000000000"
    by simp
  from th have "\<forall>now random. now < nowStamp (sendFailsAt 1700000000000) + 86400000 \<longrightarrow>
      \<not> shouldTriggerSpecialInteraction now random
          (fst (generateNewTweet (sendFailsAt 1700000000000) tateClient)) ''tate''"
    by blast
  with h7 have blocked: "\<not> shouldTriggerSpecialInteraction 1700086399999 0
      (fst (generateNewTweet (sendFailsAt 1700000000000) tateClient)) ''tate''"
    by simp
  from stamp run have stamp': "lastSpecialInteraction
      (fst (generateNewTweet (sendFailsAt 1700000000000) tateClient)) ''tate'' = Some 1700000000000"
    by simp
  from h1 h2 h7(1) evs stamp' blocked show ?thesis by blast
qed

lemma generateTweetContent_dryRunSetting:
  "generateTweetContent (env\<lparr>dryRunSetting := d\<rparr>) c = generateTweetContent env c"
  by (simp add: generateTweetContent_def Let_def
      cong: if_cong option.case_cong prod.case_cong outcome.case_cong)

lemma afterSend_keeps:
  "afterSend env p c = (threw, c', evs) \<Longrightarrow>
     lastSpecialInteraction c' = lastSpecialInteraction c \<and> isPosting c' = isPosting c"
  by (auto simp: afterSend_def Let_def split: if_splits)

lemma generateNewTweet_any_setting:
  assumes "\<not> isPosting c" "\<not> fails env AtEnsureUser"
  shows "lastSpecialInteraction (fst (generateNewTweet env c)) =
           lastSpecialInteraction (fst (snd (generateTweetContent env c))) \<and>
         take (Suc (length (snd (snd (generateTweetContent env c))))) (snd (generateNewTweet env c)) =
           UserEnsured # snd (snd (generateTweetContent env c))"
proof -
  obtain r c1 evs where g: "generateTweetContent env c = (r, c1, evs)"
    by (cases "generateTweetContent env c") auto
  obtain threw c2 evs2 where a: "afterSend env (case r of Returns p \<Rightarrow> p) (c1\<lparr>isPosting := True\<rparr>) = (threw, c2, evs2)"
    by (cases "afterSend env (case r of Returns p \<Rightarrow> p) (c1\<lparr>isPosting := True\<rparr>)") auto
  from afterSend_keeps[OF a] have k: "lastSpecialInteraction c2 = lastSpecialInteraction c1" by simp
  show ?thesis
    using assms g a k
    by (auto simp: generateNewTweet_def generateTweetContent_isPosting Let_def
        split: outcome.splits bool.splits)
qed

lemma generateNewTweet_dry_events:
  assumes "dryRunSetting env = Some ''true''"
  shows "schedule (fst (generateNewTweet env c)) = schedule c \<and>
         set (snd (generateNewTweet env c)) \<subseteq>
           {InProgressSkipped, UserEnsured, TimelineCached (fetchedTimeline env), NoContentWarned,
            PostErrorLogged} \<union> range DryRunLogged"
proof (cases "isPosting c \<or> fails env AtEnsureUser")
  case True
  then show ?thesis by (auto simp: generateNewTweet_def Let_def)
next
  case False
  obtain r c1 evs where g: "generateTweetContent env c = (r, c1, evs)"
    by (cases "generateTweetContent env c") auto
  from False have np: "\<not> isPosting c" and nf: "\<not> fails env AtEnsureUser" by auto
  from generateTweetContent_cases[OF g]
  have "schedule c1 = schedule c" and "set evs \<subseteq> {TimelineCached (fetchedTimeline env)}" by auto
  with generateNewTweet_dry[OF assms np nf g] show ?thesis
    by (auto split: outcome.splits if_splits)
qed

text \<open>
  Claim C7, as the code has it: with the dry-run setting, \<open>generateNewTweet\<close> leaves the
  schedule (and so \<open>lastPostTime\<close>) as it was and makes no call to \<open>sendTweet\<close>, to
  \<open>cacheTweet\<close>, to the last-post cache entry or to the message manager: besides log lines,
  the only writes are \<open>ensureUserExists\<close> and the cache fill of the fetched timeline that
  content generation makes on a cache miss.  When no post is in progress and
  \<open>ensureUserExists\<close> returns, the run is the whole of \<open>generateTweetContent\<close>, with its
  effects on the object (the cooldown stamp of a special interaction), followed by one log
  line; a run with any other value \<open>d\<close> of the setting starts with the same events and ends
  with the same cooldown stamps.
\<close>

theorem generateNewTweet_dry_run:
  assumes "dryRunSetting env = Some ''true''"
  shows "schedule (fst (generateNewTweet env c)) = schedule c \<and>
         set (snd (generateNewTweet env c)) \<subseteq>
           {InProgressSkipped, UserEnsured, TimelineCached (fetchedTimeline env), NoContentWarned,
            PostErrorLogged} \<union> range DryRunLogged \<and>
         (\<not> isPosting c \<and> \<not> fails env AtEnsureUser \<longrightarrow>
            fst (generateNewTweet env c) = (fst (snd (generateTweetContent env c)))\<lparr>isPosting := False\<rparr> \<and>
            snd (generateNewTweet env c) =
              UserEnsured # snd (snd (generateTweetContent env c)) @
                [case fst (generateTweetContent env c) of
                   Throws \<Rightarrow> PostErrorLogged
                 | Returns p \<Rightarrow> if content p = [] then NoContentWarned else DryRunLogged (content p)] \<and>
            lastSpecialInteraction (fst (generateNewTweet (env\<lparr>dryRunSetting := d\<rparr>) c)) =
              lastSpecialInteraction (fst (generateNewTweet env c)) \<and>
            take (Suc (length (snd (snd (generateTweetContent env c)))))
                 (snd (generateNewTweet (env\<lparr>dryRunSetting := d\<rparr>) c)) =
              UserEnsured # snd (snd (generateTweetContent env c)))"
proof -
  obtain r c1 evs where g: "generateTweetContent env c = (r, c1, evs)"
    by (cases "generateTweetContent env c") auto
  have cmp: "lastSpecialInteraction (fst (generateNewTweet (env\<lparr>dryRunSetting := d\<rparr>) c)) =
              lastSpecialInteraction (fst (generateNewTweet env c)) \<and>
            take (Suc (length (snd (snd (generateTweetContent env c)))))
                 (snd (generateNewTweet (env\<lparr>dryRunSetting := d\<rparr>) c)) =
              UserEnsured # snd (snd (generateTweetContent env c))"
    if "\<not> isPosting c" "\<not> fails env AtEnsureUser"
    using that generateNewTweet_any_setting[of c "env\<lparr>dryRunSetting := d\<rparr>"]
      generateNewTweet_any_setting[of c env]
    by (simp add: generateTweetContent_dryRunSetting)
  show ?thesis
    using generateNewTweet_dry_events[OF assms, of c] generateNewTweet_dry[OF assms _ _ g] g cmp
    by auto
qed

theorem generateNewTweet_dry_run_witness:
  "dryRunSetting (dryRunAt 1700000000000) = Some ''true'' \<and>
   \<not> isPosting plainClient \<and> \<not> fails (dryRunAt 1700000000000) AtEnsureUser \<and>
   schedule (fst (generateNewTweet (dryRunAt 1700000000000) plainClient)) = schedule plainClient \<and>
   snd (generateNewTweet (dryRunAt 1700000000000) plainClient) =
     UserEnsured # snd (snd (generateTweetContent (dryRunAt 1700000000000) plainClient)) @ [DryRunLogged ''gm'']"
proof -
  have h: "dryRunSetting (dryRunAt 1700000000000) = Some ''true''" by (simp add: dryRunAt_def)
  have g: "fst (generateTweetContent (dryRunAt 1700000000000) plainClient) =
             Returns \<lparr>content = ''gm'', isSpecialInteraction = False, interactionType = None\<rparr>"
    by (simp add: generateTweetContent_def sample_def fixtures Let_def
         truncateToCompleteSentence_def MAX_TWEET_LENGTH_def trim_def isWhiteSpace_def)
  have np: "\<not> isPosting plainClient" "\<not> fails (dryRunAt 1700000000000) AtEnsureUser"
    by (simp_all add: fixtures)
  note th = generateNewTweet_dry_run[OF h, of plainClient]
  from th have a: "schedule (fst (generateNewTweet (dryRunAt 1700000000000) plainClient)) = schedule plainClient"
    by blast
  from th np have "snd (generateNewTweet (dryRunAt 1700000000000) plainClient) =
      UserEnsured # snd (snd (generateTweetContent (dryRunAt 1700000000000) plainClient)) @
        [case fst (generateTweetContent (dryRunAt 1700000000000) plainClient) of
           Throws \<Rightarrow> PostErrorLogged
         | Returns p \<Rightarrow> if content p = [] then NoContentWarned else DryRunLogged (content p)]"
    by blast
  with g have b: "snd (generateNewTweet (dryRunAt 1700000000000) plainClient) =
      UserEnsured # snd (snd (generateTweetContent (dryRunAt 1700000000000) plainClient)) @
        [DryRunLogged ''gm'']"
    by simp
  from h np a b show ?thesis by blast
qed

text \<open>
  Claim C7 as stated says that a dry run makes no cache update and no state mutation.  On a
  cache miss the dry run writes the fetched timeline to the cache, and a dry run that selects
  a special interaction stamps its cooldown.
\<close>

theorem dry_run_writes_cache_and_cooldown:
  "dryRunSetting (dryRunAt 1700000000000) = Some ''true'' \<and>
   snd (generateNewTweet (dryRunAt 1700000000000) plainClient) =
     [UserEnsured, TimelineCached [timelineTweet], DryRunLogged ''gm''] \<and>
   lastSpecialInteraction tateClient ''tate'' = None \<and>
   lastSpecialInteraction (fst (generateNewTweet (dryRunAt 1700000000000) tateClient)) ''tate'' =
     Some 1700000000000"
  by (simp add: generateNewTweet_def generateTweetContent_def generateSpecialTweet_def
       shouldTriggerSpecialInteraction_def sample_def getOr0_def lessThanCooldown_def fixtures Let_def
       truncateToCompleteSentence_def MAX_TWEET_LENGTH_def trim_def isWhiteSpace_def)

section \<open>Properties of the interaction client\<close>

lemmas interactionFixtures = mention_def respondEnv_def drawing_def batchOf_def botClient_def
  newInteractionClient_def defaultSettings_def initLimits_def orDefault_def

lemmas interactionDefs = handleTwitterInteractions_def processCandidate_def isNewTweet_def
  BigInt_def canReplyToUser_def canReplyInThread_def getOr0_def handleTweet_def
  updateInteractionTracking_def Let_def

subsection \<open>The tracked state counts the replies\<close>

lemma repliesCounted_simps [simp]:
  "repliesCounted P [] = 0"
  "repliesCounted P (HandleReturned tweet a # evs) =
     (if a = Some ''RESPOND'' \<and> P tweet then Suc (repliesCounted P evs) else repliesCounted P evs)"
  "repliesCounted P (Checking # evs) = repliesCounted P evs"
  "repliesCounted P (SkippedRateLimit tweet # evs) = repliesCounted P evs"
  "repliesCounted P (SkippedProbability tweet # evs) = repliesCounted P evs"
  "repliesCounted P (NewTweetFound tweet # evs) = repliesCounted P evs"
  "repliesCounted P (SentReply tweet s # evs) = repliesCounted P evs"
  "repliesCounted P (CachedCheckpoint k # evs) = repliesCounted P evs"
  "repliesCounted P (Finished # evs) = repliesCounted P evs"
  "repliesCounted P (ErrorLogged # evs) = repliesCounted P evs"
  "repliesCounted P (evs @ evs') = repliesCounted P evs + repliesCounted P evs'"
  by (simp_all add: repliesCounted_def isReplyTo_def)

lemma handleTweet_events:
  "handleTweet profile env tweet messageText = (evs, r) \<Longrightarrow>
     repliesCounted P evs = 0 \<and> Checking \<notin> set evs \<and>
     (\<forall>res. r = Returns res \<and> action res = Some ''RESPOND'' \<longrightarrow>
        evs = [SentReply tweet (responseText env)])"
  by (auto simp: handleTweet_def split: if_splits)

lemma updateInteractionTracking_fields:
  "recentReplies (updateInteractionTracking now user conversation c) =
     (recentReplies c)(user \<mapsto> getOr0 (recentReplies c) user + 1)"
  "threadReplies (updateInteractionTracking now user conversation c) =
     (threadReplies c)(conversation \<mapsto> getOr0 (threadReplies c) conversation + 1)"
  "lastReplyTime (updateInteractionTracking now user conversation c) = (lastReplyTime c)(user \<mapsto> now)"
  "limits (updateInteractionTracking now user conversation c) = limits c"
  "lastCheckedTweetId (updateInteractionTracking now user conversation c) = lastCheckedTweetId c"
  "profileId (updateInteractionTracking now user conversation c) = profileId c"
  by (simp_all add: updateInteractionTracking_def Let_def)

lemma processCandidate_cases:
  assumes "processCandidate tweet env c = (threw, c', evs)"
  shows "(repliesCounted (\<lambda>t. True) evs = 0 \<and> Checking \<notin> set evs \<and>
           recentReplies c' = recentReplies c \<and> threadReplies c' = threadReplies c \<and>
           lastReplyTime c' = lastReplyTime c \<and> profileId c' = profileId c \<and> limits c' = limits c) \<or>
         (evs = [NewTweetFound tweet, SentReply tweet (responseText (handleEnv env)),
                 HandleReturned tweet (Some ''RESPOND'')] \<and>
          recentReplies c' = recentReplies (updateInteractionTracking (nowTracking env) (userId tweet) (conversationId tweet) c) \<and>
          threadReplies c' = threadReplies (updateInteractionTracking (nowTracking env) (userId tweet) (conversationId tweet) c) \<and>
          lastReplyTime c' = lastReplyTime (updateInteractionTracking (nowTracking env) (userId tweet) (conversationId tweet) c) \<and>
          profileId c' = profileId c \<and> limits c' = limits c)"
proof -
  obtain hevs hr where h: "handleTweet (profileId c) (handleEnv env) tweet (text_tw tweet) = (hevs, hr)"
    by (cases "handleTweet (profileId c) (handleEnv env) tweet (text_tw tweet)") auto
  note he = handleTweet_events[OF h, of "\<lambda>t. True"]
  show ?thesis
    using assms h he unfolding processCandidate_def Let_def
    by (auto simp: updateInteractionTracking_fields
        split: outcome.splits bool.splits if_splits option.splits)
qed

lemma repliesCounted_le: "repliesCounted P evs \<le> repliesCounted (\<lambda>t. True) evs"
proof (induction evs)
  case Nil
  then show ?case by simp
next
  case (Cons e evs)
  then show ?case by (cases e) auto
qed

lemma repliesCounted_none: "repliesCounted (\<lambda>t. True) evs = 0 \<Longrightarrow> repliesCounted P evs = 0"
  using repliesCounted_le[of P evs] by simp

lemma accounted_refl: "accounted c c []"
  by (simp add: accounted_def)

lemma accounted_trans:
  assumes "accounted c c1 evs" "accounted c1 c2 evs2"
  shows "accounted c c2 (evs @ evs2)"
  using assms unfolding accounted_def by (simp add: add.assoc) 

lemma processCandidate_accounted:
  assumes "processCandidate tweet env c = (threw, c', evs)"
  shows "accounted c c' evs"
  using processCandidate_cases[OF assms]
proof (elim disjE)
  assume a: "repliesCounted (\<lambda>t. True) evs = 0 \<and> Checking \<notin> set evs \<and>
           recentReplies c' = recentReplies c \<and> threadReplies c' = threadReplies c \<and>
           lastReplyTime c' = lastReplyTime c \<and> profileId c' = profileId c \<and> limits c' = limits c"
  then have "\<And>P. repliesCounted P evs = 0" using repliesCounted_none by blast
  with a show ?thesis by (simp add: accounted_def)
next
  assume "evs = [NewTweetFound tweet, SentReply tweet (responseText (handleEnv env)),
                 HandleReturned tweet (Some ''RESPOND'')] \<and>
          recentReplies c' = recentReplies (updateInteractionTracking (nowTracking env) (userId tweet) (conversationId tweet) c) \<and>
          threadReplies c' = threadReplies (updateInteractionTracking (nowTracking env) (userId tweet) (conversationId tweet) c) \<and>
          lastReplyTime c' = lastReplyTime (updateInteractionTracking (nowTracking env) (userId tweet) (conversationId tweet) c) \<and>
          profileId c' = profileId c \<and> limits c' = limits c"
  then show ?thesis
    by (simp add: accounted_def updateInteractionTracking_fields getOr0_def)
qed

lemma forCandidates_accounted:
  "forCandidates candidates c = (threw, c', evs) \<Longrightarrow> accounted c c' evs"
proof (induction candidates arbitrary: c threw c' evs)
  case Nil
  then show ?case by (simp add: accounted_refl)
next
  case (Cons x candidates)
  obtain tweet env where x: "x = (tweet, env)" by (cases x)
  obtain t1 c1 evs1 where p: "processCandidate tweet env c = (t1, c1, evs1)"
    by (cases "processCandidate tweet env c") auto
  note a1 = processCandidate_accounted[OF p]
  show ?case
  proof (cases t1)
    case True
    with Cons.prems x p a1 show ?thesis by simp
  next
    case False
    obtain t2 c2 evs2 where f: "forCandidates candidates c1 = (t2, c2, evs2)"
      by (cases "forCandidates candidates c1") auto
    from Cons.IH[OF f] have a2: "accounted c1 c2 evs2" .
    from Cons.prems x p f False have "c' = c2" "evs = evs1 @ evs2" by simp_all
    with accounted_trans[OF a1 a2] show ?thesis by simp
  qed
qed

lemma handleTwitterInteractions_accounted:
  "accounted c (fst (handleTwitterInteractions env c)) (tl (snd (handleTwitterInteractions env c)))"
proof (cases "searchResult env")
  case Throws
  then show ?thesis by (simp add: handleTwitterInteractions_def accounted_def)
next
  case (Returns tweetCandidates)
  let ?cands = "filter (\<lambda>(tweet, e). userId tweet \<noteq> profileId c) tweetCandidates"
  obtain threw c1 evs where f: "forCandidates ?cands c = (threw, c1, evs)"
    by (cases "forCandidates ?cands c") auto
  have a: "accounted c c1 evs" by (rule forCandidates_accounted[OF f])
  have b: "accounted c1 c1 [ErrorLogged]" "accounted c1 c1 [CachedCheckpoint (lastCheckedTweetId c1), Finished]"
    by (simp_all add: accounted_def)
  from accounted_trans[OF a b(1)] accounted_trans[OF a b(2)] Returns f show ?thesis
    by (cases threw) (simp_all add: handleTwitterInteractions_def Let_def)
qed

lemma handleTwitterInteractions_starts_checking:
  "snd (handleTwitterInteractions env c) = Checking # tl (snd (handleTwitterInteractions env c))"
  by (simp add: handleTwitterInteractions_def Let_def split: outcome.splits prod.splits bool.splits)





subsection \<open>Errors while a candidate is handled\<close>

lemma forCandidates_append:
  "forCandidates (before @ rest) c =
     (case forCandidates before c of
        (True, c1, evs) \<Rightarrow> (True, c1, evs)
      | (False, c1, evs) \<Rightarrow>
          (case forCandidates rest c1 of (threw, c2, evs2) \<Rightarrow> (threw, c2, evs @ evs2)))"
proof (induction before arbitrary: c)
  case Nil
  then show ?case by (simp split: prod.splits)
next
  case (Cons x before)
  obtain tweet env where x: "x = (tweet, env)" by (cases x)
  obtain t1 c1 evs1 where p: "processCandidate tweet env c = (t1, c1, evs1)"
    by (cases "processCandidate tweet env c") auto
  show ?case
    using Cons.IH[of c1] x p
    by (cases t1) (auto split: prod.splits bool.splits)
qed

lemma forCandidates_aborts:
  assumes "forCandidates before c = (False, c1, evs1)"
    and "processCandidate tweet tenv c1 = (True, c2, evs2)"
  shows "forCandidates (before @ (tweet, tenv) # rest) c = (True, c2, evs1 @ evs2)"
  using assms by (simp add: forCandidates_append)

lemma handleTwitterInteractions_one_check:
  "length (filter (\<lambda>e. e = Checking) (snd (handleTwitterInteractions env c))) = 1"
proof -
  have "Checking \<notin> set (tl (snd (handleTwitterInteractions env c)))"
    using handleTwitterInteractions_accounted[of c env] by (simp add: accounted_def)
  then have "filter (\<lambda>e. e = Checking) (tl (snd (handleTwitterInteractions env c))) = []"
    by (auto simp: filter_empty_conv)
  then show ?thesis
    by (subst handleTwitterInteractions_starts_checking) simp
qed

lemma handleTwitterInteractionsLoop_checks:
  "length (filter (\<lambda>e. e = Checking) (snd (handleTwitterInteractionsLoop envs c))) = length envs"
proof (induction envs arbitrary: c)
  case Nil
  then show ?case by simp
next
  case (Cons env envs)
  obtain c1 evs where h: "handleTwitterInteractions env c = (c1, evs)"
    by (cases "handleTwitterInteractions env c")
  obtain c2 evs2 where l: "handleTwitterInteractionsLoop envs c1 = (c2, evs2)"
    by (cases "handleTwitterInteractionsLoop envs c1")
  from handleTwitterInteractions_one_check[of env c] h
  have "length (filter (\<lambda>e. e = Checking) evs) = 1" by simp
  moreover from Cons.IH[of c1] l have "length (filter (\<lambda>e. e = Checking) evs2) = length envs" by simp
  ultimately show ?case using h l by simp
qed

text \<open>
  Claim C5, as the code has it: the \<open>try\<close> block of \<open>handleTwitterInteractions\<close> encloses the
  whole loop.  An exception that leaves the handling of one candidate is caught and logged
  once, after the loop has been left: the candidates after it are not looked at and the
  checkpoint is not cached, whatever they are.  The polling loop goes on: every firing of
  the timer starts its batch.  Inside \<open>handleTweet\<close> only the block that sends the reply
  has a handler of its own, so when neither the decision nor the generation of the response
  throws, \<open>handleTweet\<close> returns.
\<close>

theorem candidate_error_aborts_batch_not_loop:
  assumes "searchResult env = Returns candidates"
    and "filter (\<lambda>(tweet, e). userId tweet \<noteq> profileId c) candidates = before @ (tweet, tenv) # rest"
    and "forCandidates before c = (False, c1, evs1)"
    and "processCandidate tweet tenv c1 = (True, c2, evs2)"
  shows "handleTwitterInteractions env c = (c2, Checking # evs1 @ evs2 @ [ErrorLogged]) \<and>
         length (filter (\<lambda>e. e = Checking) (snd (handleTwitterInteractionsLoop (env # later) c))) =
           Suc (length later) \<and>
         snd (handleTweet profile (henv\<lparr>decisionThrows := False, responseThrows := False\<rparr>) tweet' messageText)
           \<noteq> Throws"
proof -
  from forCandidates_aborts[OF assms(3,4), of rest] assms(1,2)
  have "handleTwitterInteractions env c = (c2, Checking # evs1 @ evs2 @ [ErrorLogged])"
    by (simp add: handleTwitterInteractions_def Let_def)
  moreover have "snd (handleTweet profile (henv\<lparr>decisionThrows := False, responseThrows := False\<rparr>) tweet' messageText)
           \<noteq> Throws"
    by (simp add: handleTweet_def)
  ultimately show ?thesis
    using handleTwitterInteractionsLoop_checks[of "env # later" c] by simp
qed

theorem candidate_error_aborts_batch_not_loop_witness:
  "handleTwitterInteractions failingThenFine botClient =
     (botClient, [Checking, NewTweetFound (mention ''1850000000000000001'' ''alice''), ErrorLogged]) \<and>
   length (filter (\<lambda>e. e = Checking)
     (snd (handleTwitterInteractionsLoop [failingThenFine, failingThenFine] botClient))) = 2"
proof -
  have h1: "searchResult failingThenFine =
      Returns [(mention ''1850000000000000001'' ''alice'', decisionFails),
               (mention ''1850000000000000002'' ''carol'', drawing (1 / 10))]"
    by (simp add: failingThenFine_def batchOf_def)
  have h2: "filter (\<lambda>(tweet, e). userId tweet \<noteq> profileId botClient)
              [(mention ''1850000000000000001'' ''alice'', decisionFails),
               (mention ''1850000000000000002'' ''carol'', drawing (1 / 10))] =
            [] @ (mention ''1850000000000000001'' ''alice'', decisionFails) #
              [(mention ''1850000000000000002'' ''carol'', drawing (1 / 10))]"
    by (simp add: interactionFixtures)
  have h3: "forCandidates [] botClient = (False, botClient, [])" by simp
  have h4: "processCandidate (mention ''1850000000000000001'' ''alice'') decisionFails botClient =
      (True, botClient, [NewTweetFound (mention ''1850000000000000001'' ''alice'')])"
    by (simp add: decisionFails_def interactionDefs interactionFixtures)
  from candidate_error_aborts_batch_not_loop[OF h1 h2 h3 h4, of "[failingThenFine]"]
  show ?thesis by simp
qed

text \<open>
  Claim C5 as stated says that the remaining candidates are still processed.  In a batch of
  two mentions where an awaited call rejects while the first is handled, the second is not
  looked at; alone, it gets a reply.
\<close>

theorem candidate_error_skips_remaining_candidates:
  "snd (handleTwitterInteractions failingThenFine botClient) =
     [Checking, NewTweetFound (mention ''1850000000000000001'' ''alice''), ErrorLogged] \<and>
   snd (handleTwitterInteractions
         (batchOf [(mention ''1850000000000000002'' ''carol'', drawing (1 / 10))]) botClient) =
     [Checking, NewTweetFound (mention ''1850000000000000002'' ''carol''),
      SentReply (mention ''1850000000000000002'' ''carol'') ''gm'',
      HandleReturned (mention ''1850000000000000002'' ''carol'') (Some ''RESPOND''),
      CachedCheckpoint (Some 1850000000000000002), Finished]"
  by (simp add: failingThenFine_def decisionFails_def interactionDefs interactionFixtures)

subsection \<open>The checkpoint\<close>

text \<open>
  Claim C1 (the checkpoint is advanced for every candidate considered, also for a skipped
  one, which is therefore never considered again).  The code leaves the loop body with
  \<open>continue\<close> before the assignment when the limits or the draw skip the candidate.  With the
  checkpoint at 1849999999999999999 and one mention 1850000000000000001 that the draw skips,
  the batch ends with the checkpoint unchanged, and the next poll, which finds the same
  mention, handles it and replies.
\<close>

theorem skipped_candidate_is_reconsidered:
  "lastCheckedTweetId botClient = Some 1849999999999999999 \<and>
   handleTwitterInteractions (hd skippedThenSeenAgain) botClient =
     (botClient,
      [Checking, SkippedProbability (mention ''1850000000000000001'' ''alice''),
       CachedCheckpoint (Some 1849999999999999999), Finished]) \<and>
   snd (handleTwitterInteractionsLoop skippedThenSeenAgain botClient) =
     [Checking, SkippedProbability (mention ''1850000000000000001'' ''alice''),
      CachedCheckpoint (Some 1849999999999999999), Finished,
      Checking, NewTweetFound (mention ''1850000000000000001'' ''alice''),
      SentReply (mention ''1850000000000000001'' ''alice'') ''gm'',
      HandleReturned (mention ''1850000000000000001'' ''alice'') (Some ''RESPOND''),
      CachedCheckpoint (Some 1850000000000000001), Finished]"
  by (simp add: skippedThenSeenAgain_def interactionDefs interactionFixtures)

subsection \<open>The reply thread\<close>

lemma processThread_fst:
  "fst (processThread w m t d st0) = (d < m \<and> memoryThrows w d t)"
  by (subst processThread.simps) (auto simp: Let_def split: option.splits outcome.splits)

lemma processThread_inv:
  "distinct (map id_tw (thread st0)) \<and> id_tw ` set (thread st0) = visited st0 \<Longrightarrow>
   distinct (map id_tw (thread (snd (processThread w m t d st0)))) \<and>
   id_tw ` set (thread (snd (processThread w m t d st0))) = visited (snd (processThread w m t d st0))"
proof (induction w m t d st0 rule: processThread.induct)
  case (1 w maxReplies currentTweet depth st0)
  show ?case
    using 1
    by (subst (1 2 3) processThread.simps) (auto simp: Let_def split: option.splits outcome.splits)
qed

lemma processThread_visits:
  "int (visits (snd (processThread w m t d st0))) \<le> int (visits st0) + max 0 (m - d) + 1"
proof (induction w m t d st0 rule: processThread.induct)
  case (1 w maxReplies currentTweet depth st0)
  show ?case
    using 1
    by (subst processThread.simps) (fastforce simp: Let_def split: option.splits outcome.splits)
qed

lemma processThread_visited_again:
  "id_tw p \<in> visited st \<Longrightarrow> thread (snd (processThread w m p d st)) = thread st"
  by (subst processThread.simps) (simp add: Let_def)

lemma buildConversationThread_unfold:
  "buildConversationThread w tweet maxReplies =
     (if fst (processThread w maxReplies tweet 0 \<lparr>thread = [], visited = {}, visits = 0\<rparr>) then None
      else Some (thread (snd (processThread w maxReplies tweet 0 \<lparr>thread = [], visited = {}, visits = 0\<rparr>))),
      visits (snd (processThread w maxReplies tweet 0 \<lparr>thread = [], visited = {}, visits = 0\<rparr>)))"
  by (simp add: buildConversationThread_def split: prod.splits bool.splits)

lemma buildConversationThread_visits:
  "int (snd (buildConversationThread w tweet maxReplies)) \<le> max 0 maxReplies + 1"
  using processThread_visits[of w maxReplies tweet 0 "\<lparr>thread = [], visited = {}, visits = 0\<rparr>"]
  by (simp add: buildConversationThread_unfold)

lemma buildConversationThread_rejects:
  "fst (buildConversationThread w tweet maxReplies) = None \<longleftrightarrow> 0 < maxReplies \<and> memoryThrows w 0 tweet"
  by (simp add: buildConversationThread_unfold processThread_fst)

lemma buildConversationThread_distinct:
  assumes "fst (buildConversationThread w tweet maxReplies) = Some posts"
  shows "distinct (map id_tw posts)"
proof -
  from assms have "posts = thread (snd (processThread w maxReplies tweet 0 \<lparr>thread = [], visited = {}, visits = 0\<rparr>))"
    by (simp add: buildConversationThread_unfold split: if_splits)
  with processThread_inv[of "\<lparr>thread = [], visited = {}, visits = 0\<rparr>" w maxReplies tweet 0]
  show ?thesis by simp
qed

lemma buildConversationThread_self_reply:
  assumes "inReplyToStatusId tweet = Some (id_tw tweet)" and "1 \<le> maxReplies"
    and "\<not> memoryThrows w 0 tweet"
    and "\<forall>p. getTweet w 0 (id_tw tweet) = Returns (Some p) \<longrightarrow> id_tw p = id_tw tweet"
  shows "fst (buildConversationThread w tweet maxReplies) = Some [tweet]"
proof -
  let ?st0 = "\<lparr>thread = [], visited = {}, visits = 0\<rparr>"
  let ?st1 = "\<lparr>thread = [tweet], visited = {id_tw tweet}, visits = 1\<rparr>"
  consider (found) p where "id_tw tweet \<noteq> []" "getTweet w 0 (id_tw tweet) = Returns (Some p)"
    | (other) "id_tw tweet = [] \<or> (\<forall>p. getTweet w 0 (id_tw tweet) \<noteq> Returns (Some p))"
    by blast
  then have "thread (snd (processThread w maxReplies tweet 0 ?st0)) = [tweet]"
  proof cases
    case found
    with assms(4) have "id_tw p = id_tw tweet" by blast
    then have "thread (snd (processThread w maxReplies p 1 ?st1)) = [tweet]"
      using processThread_visited_again[of p ?st1 w maxReplies 1] by simp
    moreover have "snd (processThread w maxReplies tweet 0 ?st0) = snd (processThread w maxReplies p 1 ?st1)"
      using assms(1,2,3) found by (subst processThread.simps[of w maxReplies tweet 0]) (simp add: Let_def)
    ultimately show ?thesis by simp
  next
    case other
    have "snd (processThread w maxReplies tweet 0 ?st0) = ?st1"
      using assms(1,2,3) other
      by (subst processThread.simps[of w maxReplies tweet 0])
         (auto simp: Let_def split: outcome.splits option.splits)
    then show ?thesis by simp
  qed
  moreover have "\<not> fst (processThread w maxReplies tweet 0 ?st0)"
    using assms(3) by (simp add: processThread_fst)
  ultimately show ?thesis
    by (simp add: buildConversationThread_unfold)
qed

text \<open>
  Claim C4, as the code has it: \<open>buildConversationThread\<close> always terminates, after at most
  \<open>maxReplies + 1\<close> calls of \<open>processThread\<close> (one call when \<open>maxReplies\<close> is negative),
  whatever the network answers, cycles included.  It rejects exactly when \<open>maxReplies\<close> is
  positive and the block that stores the candidate itself throws; otherwise it returns a
  thread whose post ids are pairwise distinct.  A candidate that names itself as its parent
  yields the thread of that one post when \<open>maxReplies\<close> is at least 1, the store does not
  throw on it, and the network does not answer the lookup of its id with a post of another
  id.
\<close>

theorem buildConversationThread_bounded_distinct:
  "int (snd (buildConversationThread w tweet maxReplies)) \<le> max 0 maxReplies + 1 \<and>
   (fst (buildConversationThread w tweet maxReplies) = None \<longleftrightarrow>
      0 < maxReplies \<and> memoryThrows w 0 tweet) \<and>
   (\<forall>posts. fst (buildConversationThread w tweet maxReplies) = Some posts \<longrightarrow>
      distinct (map id_tw posts)) \<and>
   (inReplyToStatusId tweet = Some (id_tw tweet) \<and> 1 \<le> maxReplies \<and> \<not> memoryThrows w 0 tweet \<and>
    (\<forall>p. getTweet w 0 (id_tw tweet) = Returns (Some p) \<longrightarrow> id_tw p = id_tw tweet)
      \<longrightarrow> fst (buildConversationThread w tweet maxReplies) = Some [tweet])"
proof (intro conjI allI impI)
  show "int (snd (buildConversationThread w tweet maxReplies)) \<le> max 0 maxReplies + 1"
    by (rule buildConversationThread_visits)
  show "fst (buildConversationThread w tweet maxReplies) = None \<longleftrightarrow>
      0 < maxReplies \<and> memoryThrows w 0 tweet"
    by (rule buildConversationThread_rejects)
  show "distinct (map id_tw posts)"
    if "fst (buildConversationThread w tweet maxReplies) = Some posts" for posts
    using that by (rule buildConversationThread_distinct)
  show "fst (buildConversationThread w tweet maxReplies) = Some [tweet]"
    if "inReplyToStatusId tweet = Some (id_tw tweet) \<and> 1 \<le> maxReplies \<and> \<not> memoryThrows w 0 tweet \<and>
        (\<forall>p. getTweet w 0 (id_tw tweet) = Returns (Some p) \<longrightarrow> id_tw p = id_tw tweet)"
    using that buildConversationThread_self_reply[of tweet maxReplies w] by blast
qed

theorem buildConversationThread_bounded_distinct_witness:
  "inReplyToStatusId selfTweet = Some (id_tw selfTweet) \<and>
   \<not> memoryThrows selfWorld 0 selfTweet \<and>
   getTweet selfWorld 0 (id_tw selfTweet) = Returns (Some selfTweet) \<and>
   fst (buildConversationThread selfWorld selfTweet 2) = Some [selfTweet] \<and>
   int (snd (buildConversationThread selfWorld selfTweet 2)) \<le> 3"
proof -
  have h1: "inReplyToStatusId selfTweet = Some (id_tw selfTweet)" by (simp add: selfTweet_def)
  have h2: "\<not> memoryThrows selfWorld 0 selfTweet" by (simp add: selfWorld_def)
  have h3: "getTweet selfWorld 0 (id_tw selfTweet) = Returns (Some selfTweet)" by (simp add: selfWorld_def)
  have h4: "\<forall>p. getTweet selfWorld 0 (id_tw selfTweet) = Returns (Some p) \<longrightarrow> id_tw p = id_tw selfTweet"
    by (simp add: h3)
  note th = buildConversationThread_bounded_distinct[of selfWorld selfTweet 2]
  have h5: "(1::int) \<le> 2" and h6: "max 0 2 + 1 = (3::int)" by simp_all
  from th h6 have a: "int (snd (buildConversationThread selfWorld selfTweet 2)) \<le> 3" by metis
  from th h1 h2 h4 h5 have b: "fst (buildConversationThread selfWorld selfTweet 2) = Some [selfTweet]"
    by blast
  from h1 h2 h3 a b show ?thesis by blast
qed

text \<open>
  Claim C4 as stated says that a candidate whose parent id is its own id yields a
  single-element thread for every depth bound.  With the depth bound 0 the first call returns
  at the depth test and the thread is empty.
\<close>

theorem self_reply_depth_zero_gives_empty_thread:
  "inReplyToStatusId selfTweet = Some (id_tw selfTweet) \<and>
   buildConversationThread selfWorld selfTweet 0 = (Some [], 1)"
  by (simp add: buildConversationThread_unfold processThread.simps[of _ 0 _ 0] selfTweet_def)

end
